theory Spec2Isabelle
  imports Complex_Main "HOL-Library.Word"
begin

section \<open>Data model (internal/todo/todo.go)\<close>

text \<open>
  Go's \<^verbatim>\<open>int\<close> is a signed machine integer; on the 64-bit targets the program is
  built for it has 64 bits. Addition wraps around silently and comparisons are signed,
  so identifiers and counters are 64-bit words read through \<open>sint\<close>, compared with
  \<open>\<le>s\<close> and \<open><s\<close>.
\<close>

type_synonym goint = "64 word"

text \<open>
  A \<^verbatim>\<open>time.Time\<close> is an instant; it is represented by its distance from the epoch.
  \<^verbatim>\<open>time.Now()\<close> reads the clock, so every operation that calls it takes the instant
  it reads as an argument.
\<close>

type_synonym Time = int

record Stats =
  Total :: goint
  Completed :: goint
  Pending :: goint

text \<open>
  \<^verbatim>\<open>CompletedAt *time.Time\<close> is a pointer that may be nil: an optional instant.
  (The field \<open>Completed\<close> of a todo is declared after the one of \<open>Stats\<close>, so the
  plain name means the todo's flag and the counter is written \<open>Stats.Completed\<close>.)
\<close>

record Todo =
  ID :: goint
  Description :: string
  Completed :: bool
  CreatedAt :: Time
  CompletedAt :: "Time option"

text \<open>
  The program's errors are values built by \<^verbatim>\<open>fmt.Errorf\<close>; each constructor stands for
  one message of the source, \<^verbatim>\<open>%w\<close> wrapping is a constructor with the wrapped error
  as argument, and \<open>ErrExternal\<close> is an error coming from outside the program (the
  operating system, the JSON library, a test double).
  \<^item> \<open>ErrEmptyDescription\<close>: "description cannot be empty" (the specification's InvalidInput)
  \<^item> \<open>ErrNotFound i\<close>: "todo with ID %d not found" (NotFound)
  \<^item> \<open>ErrAlreadyCompleted i\<close>: "todo with ID %d is already completed" (AlreadyInState)
  \<^item> \<open>ErrAlreadyIncomplete i\<close>: "todo with ID %d is already incomplete" (AlreadyInState)
  \<^item> \<open>ErrSaveTodo e\<close>: "failed to save todo: %w" (PersistenceFailed)
  \<^item> \<open>ErrMarshal e\<close>: "failed to marshal todos: %w"
  \<^item> \<open>ErrWriteFile e\<close>: "failed to write file: %w"
  \<^item> \<open>ErrReadFile e\<close>: "failed to read file: %w"
  \<^item> \<open>ErrUnmarshal e\<close>: "failed to unmarshal todos: %w" (CorruptData)
\<close>

datatype error =
    ErrEmptyDescription
  | ErrNotFound goint
  | ErrAlreadyCompleted goint
  | ErrAlreadyIncomplete goint
  | ErrSaveTodo error
  | ErrMarshal error
  | ErrWriteFile error
  | ErrReadFile error
  | ErrUnmarshal error
  | ErrExternal string

text \<open>
  The \<^verbatim>\<open>Repository\<close> interface. An implementation is a pair of methods over the
  state \<open>'w\<close> they act on (a file system, the fields of a test double): \<open>Save\<close>
  returns the error (\<open>None\<close> is Go's nil) and the state it leaves, \<open>Load\<close> only reads.
\<close>

record 'w Repository =
  Save :: "Todo list \<Rightarrow> 'w \<Rightarrow> error option \<times> 'w"
  Load :: "'w \<Rightarrow> error + Todo list"

text \<open>
  The \<^verbatim>\<open>Service\<close> struct: the slice of todos and the counter. Its \<^verbatim>\<open>repo\<close> field
  never changes after construction, so the repository and the state behind it are
  arguments of every operation.
\<close>

record Service =
  todos :: "Todo list"
  nextID :: goint

section \<open>The service\<close>

definition save :: "'w Repository \<Rightarrow> Service \<Rightarrow> 'w \<Rightarrow> error option \<times> 'w" where
  "save R s w = Save R (todos s) w"

text \<open>
  \<^verbatim>\<open>loadTodos\<close>: on a load error the service is left as it is; otherwise the loaded
  slice replaces the todos and the loop raises \<open>nextID\<close> past every identifier that is
  not below it (\<^verbatim>\<open>if todo.ID >= s.nextID { s.nextID = todo.ID + 1 }\<close>).
\<close>

fun loadTodos_loop :: "goint \<Rightarrow> Todo list \<Rightarrow> goint" where
  "loadTodos_loop n [] = n"
| "loadTodos_loop n (todo # rest) =
     loadTodos_loop (if n \<le>s ID todo then ID todo + 1 else n) rest"

definition loadTodos :: "'w Repository \<Rightarrow> Service \<Rightarrow> 'w \<Rightarrow> error option \<times> Service" where
  "loadTodos R s w =
     (case Load R w of
        Inl err \<Rightarrow> (Some err, s)
      | Inr loaded \<Rightarrow>
          (None, s\<lparr>todos := loaded, nextID := loadTodos_loop (nextID s) loaded\<rparr>))"

text \<open>
  \<^verbatim>\<open>NewService\<close> starts from no todos and counter 1 and never fails: a load error is
  only printed as a warning, returned here beside the service.
\<close>

definition NewService :: "'w Repository \<Rightarrow> 'w \<Rightarrow> Service \<times> error option" where
  "NewService R w =
     (case loadTodos R \<lparr>todos = [], nextID = 1\<rparr> w of
        (Some err, service) \<Rightarrow> (service, Some err)
      | (None, service) \<Rightarrow> (service, None))"

definition Add ::
  "'w Repository \<Rightarrow> Time \<Rightarrow> string \<Rightarrow> Service \<Rightarrow> 'w \<Rightarrow> (error + Todo) \<times> Service \<times> 'w" where
  "Add R now description s w =
     (if description = [] then (Inl ErrEmptyDescription, s, w)
      else
        let todo = \<lparr>ID = nextID s, Description = description, Completed = False,
                    CreatedAt = now, CompletedAt = None\<rparr>;
            s' = s\<lparr>todos := todos s @ [todo], nextID := nextID s + 1\<rparr>
        in (case save R s' w of
              (Some err, w') \<Rightarrow> (Inl (ErrSaveTodo err), s', w')
            | (None, w') \<Rightarrow> (Inr todo, s', w')))"

definition GetAll :: "Service \<Rightarrow> Todo list" where
  "GetAll s = todos s"

fun GetByStatus_loop :: "bool \<Rightarrow> Todo list \<Rightarrow> Todo list \<Rightarrow> Todo list" where
  "GetByStatus_loop completed filtered [] = filtered"
| "GetByStatus_loop completed filtered (todo # rest) =
     GetByStatus_loop completed
       (if Completed todo = completed then filtered @ [todo] else filtered) rest"

definition GetByStatus :: "Service \<Rightarrow> bool \<Rightarrow> Todo list" where
  "GetByStatus s completed = GetByStatus_loop completed [] (todos s)"

text \<open>
  The loop \<^verbatim>\<open>for i, todo := range s.todos { if todo.ID == id { ... return } }\<close> of
  \<^verbatim>\<open>GetByID\<close> and \<^verbatim>\<open>Delete\<close>: the index of the first todo with the identifier, if any.
\<close>

fun range_find :: "goint \<Rightarrow> nat \<Rightarrow> Todo list \<Rightarrow> nat option" where
  "range_find id' i [] = None"
| "range_find id' i (todo # rest) =
     (if ID todo = id' then Some i else range_find id' (Suc i) rest)"

text \<open>
  \<^verbatim>\<open>GetByID\<close> returns the pointer \<^verbatim>\<open>&s.todos[i]\<close>: the index \<open>i\<close> into the service's
  slice, through which \<^verbatim>\<open>Complete\<close> and \<^verbatim>\<open>Incomplete\<close> read and write the element.
\<close>

definition GetByID :: "Service \<Rightarrow> goint \<Rightarrow> error + nat" where
  "GetByID s id' =
     (case range_find id' 0 (todos s) of
        Some i \<Rightarrow> Inr i
      | None \<Rightarrow> Inl (ErrNotFound id'))"

definition Complete ::
  "'w Repository \<Rightarrow> Time \<Rightarrow> goint \<Rightarrow> Service \<Rightarrow> 'w \<Rightarrow> error option \<times> Service \<times> 'w" where
  "Complete R now id' s w =
     (case GetByID s id' of
        Inl err \<Rightarrow> (Some err, s, w)
      | Inr i \<Rightarrow>
          if Completed (todos s ! i) then (Some (ErrAlreadyCompleted id'), s, w)
          else
            let s' = s\<lparr>todos := (todos s)[i := (todos s ! i)\<lparr>Completed := True, CompletedAt := Some now\<rparr>]\<rparr>
            in (case save R s' w of (r, w') \<Rightarrow> (r, s', w')))"

definition Incomplete ::
  "'w Repository \<Rightarrow> goint \<Rightarrow> Service \<Rightarrow> 'w \<Rightarrow> error option \<times> Service \<times> 'w" where
  "Incomplete R id' s w =
     (case GetByID s id' of
        Inl err \<Rightarrow> (Some err, s, w)
      | Inr i \<Rightarrow>
          if \<not> Completed (todos s ! i) then (Some (ErrAlreadyIncomplete id'), s, w)
          else
            let s' = s\<lparr>todos := (todos s)[i := (todos s ! i)\<lparr>Completed := False, CompletedAt := None\<rparr>]\<rparr>
            in (case save R s' w of (r, w') \<Rightarrow> (r, s', w')))"

text \<open>
  \<^verbatim>\<open>Delete\<close>: \<^verbatim>\<open>append(s.todos[:i], s.todos[i+1:]...)\<close> is the slice without its
  element \<open>i\<close>.
\<close>

definition Delete ::
  "'w Repository \<Rightarrow> goint \<Rightarrow> Service \<Rightarrow> 'w \<Rightarrow> error option \<times> Service \<times> 'w" where
  "Delete R id' s w =
     (case range_find id' 0 (todos s) of
        Some i \<Rightarrow>
          let s' = s\<lparr>todos := take i (todos s) @ drop (i + 1) (todos s)\<rparr>
          in (case save R s' w of (r, w') \<Rightarrow> (r, s', w'))
      | None \<Rightarrow> (Some (ErrNotFound id'), s, w))"

text \<open>
  \<^verbatim>\<open>GetStats\<close>: \<open>Total\<close> is \<^verbatim>\<open>len(s.todos)\<close> as an \<^verbatim>\<open>int\<close>; the loop increments one of
  the two other counters for each todo.
\<close>

fun GetStats_loop :: "Stats \<Rightarrow> Todo list \<Rightarrow> Stats" where
  "GetStats_loop stats [] = stats"
| "GetStats_loop stats (todo # rest) =
     GetStats_loop
       (if Completed todo then stats\<lparr>Stats.Completed := Stats.Completed stats + 1\<rparr>
        else stats\<lparr>Pending := Pending stats + 1\<rparr>) rest"

definition GetStats :: "Service \<Rightarrow> Stats" where
  "GetStats s =
     GetStats_loop \<lparr>Total = of_nat (length (todos s)), Completed = 0, Pending = 0\<rparr> (todos s)"

text \<open>
  \<^verbatim>\<open>CompletionRate\<close> computes in \<^verbatim>\<open>float64\<close>. The three floating-point operations it
  uses (conversion from \<^verbatim>\<open>int\<close>, division, multiplication) are parameters, so that
  nothing is assumed about rounding; the constants 0 and 100 are the conversions of
  the integers.
\<close>

record 'f float64_ops =
  float64 :: "goint \<Rightarrow> 'f"
  fdiv :: "'f \<Rightarrow> 'f \<Rightarrow> 'f"
  fmul :: "'f \<Rightarrow> 'f \<Rightarrow> 'f"

definition CompletionRate :: "'f float64_ops \<Rightarrow> Stats \<Rightarrow> 'f" where
  "CompletionRate F s =
     (if Total s = 0 then float64 F 0
      else fmul F (fdiv F (float64 F (Stats.Completed s)) (float64 F (Total s))) (float64 F 100))"

text \<open>
  A caller making a sequence of \<^verbatim>\<open>Add\<close> calls, each with the instant its
  \<^verbatim>\<open>time.Now()\<close> reads and its description; the results are collected in call order.
\<close>

fun Adds ::
  "'w Repository \<Rightarrow> (Time \<times> string) list \<Rightarrow> Service \<Rightarrow> 'w \<Rightarrow> (error + Todo) list \<times> Service \<times> 'w" where
  "Adds R [] s w = ([], s, w)"
| "Adds R ((now, description) # calls) s w =
     (case Add R now description s w of
        (r, s', w') \<Rightarrow>
          (case Adds R calls s' w' of (rs, s'', w'') \<Rightarrow> (r # rs, s'', w'')))"

text \<open>The todos returned by the calls that succeeded, in call order.\<close>

fun created :: "(error + Todo) list \<Rightarrow> Todo list" where
  "created [] = []"
| "created (Inr todo # rs) = todo # created rs"
| "created (Inl err # rs) = created rs"

text \<open>
  The invariant of a todo item: the completion timestamp is present exactly when the
  completion flag is set.
\<close>

definition todo_inv :: "Todo \<Rightarrow> bool" where
  "todo_inv t \<longleftrightarrow> (\<not> Completed t \<longrightarrow> CompletedAt t = None) \<and> (Completed t \<longrightarrow> CompletedAt t \<noteq> None)"

section \<open>The test double (MockRepository of the service's tests)\<close>

record MockRepository =
  m_todos :: "Todo list"
  m_err :: "error option"

definition MockRepository_Save :: "Todo list \<Rightarrow> MockRepository \<Rightarrow> error option \<times> MockRepository" where
  "MockRepository_Save ts m =
     (case m_err m of
        Some err \<Rightarrow> (Some err, m)
      | None \<Rightarrow> (None, m\<lparr>m_todos := ts\<rparr>))"

definition MockRepository_Load :: "MockRepository \<Rightarrow> error + Todo list" where
  "MockRepository_Load m =
     (case m_err m of
        Some err \<Rightarrow> Inl err
      | None \<Rightarrow> Inr (m_todos m))"

definition mockRepo :: "MockRepository Repository" where
  "mockRepo = \<lparr>Save = MockRepository_Save, Load = MockRepository_Load\<rparr>"

section \<open>The JSON file repository (internal/storage)\<close>

text \<open>
  The repository talks to the operating system about one path, \<^verbatim>\<open>r.filename\<close>. What
  is at the path:
  \<^item> \<open>NotExist\<close>: nothing, and the system says so (\<^verbatim>\<open>ENOENT\<close>);
  \<^item> \<open>Unreachable\<close>: the path cannot be examined at all, because a parent component is
    a regular file or may not be searched (\<^verbatim>\<open>ENOTDIR\<close>, \<^verbatim>\<open>EACCES\<close>): every call on
    the path fails, and not with \<^verbatim>\<open>ENOENT\<close>;
  \<^item> \<open>File data\<close>: a file with the bytes \<open>data\<close>.
\<close>

datatype node = NotExist | Unreachable | File string

text \<open>
  How a call of \<^verbatim>\<open>os.WriteFile\<close> on the path ends. The call opens the file with
  \<^verbatim>\<open>O_WRONLY|O_CREATE|O_TRUNC\<close>, writes and closes:
  \<^item> \<open>WriteSucceeds\<close>: the file holds the data;
  \<^item> \<open>OpenFails\<close>: the open is refused (permissions, a directory at the path, a missing
    parent) and nothing changes;
  \<^item> \<open>WriteFailsAfter n\<close>: the open succeeds, so the file is created or truncated, and
    the write fails after \<open>n\<close> bytes (disk full, file-size limit).
\<close>

datatype write_outcome = WriteSucceeds | OpenFails | WriteFailsAfter nat

record FileSys =
  node :: node
  readable :: bool
  on_write :: write_outcome

definition ENOENT :: error where
  "ENOENT = ErrExternal ''no such file or directory''"

definition ENOTDIR :: error where
  "ENOTDIR = ErrExternal ''not a directory''"

definition os_Stat :: "FileSys \<Rightarrow> error option" where
  "os_Stat fs =
     (case node fs of
        NotExist \<Rightarrow> Some ENOENT
      | Unreachable \<Rightarrow> Some ENOTDIR
      | File data \<Rightarrow> None)"

text \<open>\<^verbatim>\<open>os.IsNotExist\<close> is true of the error \<^verbatim>\<open>ENOENT\<close> only, and false of nil.\<close>

definition os_IsNotExist :: "error option \<Rightarrow> bool" where
  "os_IsNotExist err \<longleftrightarrow> err = Some ENOENT"

definition os_ReadFile :: "FileSys \<Rightarrow> error + string" where
  "os_ReadFile fs =
     (case node fs of
        NotExist \<Rightarrow> Inl ENOENT
      | Unreachable \<Rightarrow> Inl ENOTDIR
      | File data \<Rightarrow>
          if readable fs then Inr data else Inl (ErrExternal ''permission denied''))"

text \<open>
  \<^verbatim>\<open>os.WriteFile(name, data, 0o600)\<close>. A file it creates gets mode 0600 and so can be
  read back; an existing file keeps its mode. When the write fails after the open, the
  file is left with the bytes written so far.
\<close>

definition os_WriteFile :: "string \<Rightarrow> FileSys \<Rightarrow> error option \<times> FileSys" where
  "os_WriteFile data fs =
     (if node fs = Unreachable then (Some ENOTDIR, fs)
      else
        (case on_write fs of
           OpenFails \<Rightarrow> (Some (ErrExternal ''permission denied''), fs)
         | WriteFailsAfter n \<Rightarrow>
             (Some (ErrExternal ''no space left on device''),
              fs\<lparr>node := File (take n data), readable := (node fs = NotExist \<or> readable fs)\<rparr>)
         | WriteSucceeds \<Rightarrow>
             (None, fs\<lparr>node := File data, readable := (node fs = NotExist \<or> readable fs)\<rparr>)))"

text \<open>
  \<^verbatim>\<open>json.MarshalIndent\<close> and \<^verbatim>\<open>json.Unmarshal\<close> belong to Go's library, not to this
  program: they are parameters of the repository.
\<close>

record JSON =
  MarshalIndent :: "Todo list \<Rightarrow> error + string"
  Unmarshal :: "string \<Rightarrow> error + Todo list"

definition JSONRepository_Save :: "JSON \<Rightarrow> Todo list \<Rightarrow> FileSys \<Rightarrow> error option \<times> FileSys" where
  "JSONRepository_Save J ts fs =
     (case MarshalIndent J ts of
        Inl err \<Rightarrow> (Some (ErrMarshal err), fs)
      | Inr data \<Rightarrow>
          (case os_WriteFile data fs of
             (Some err, fs') \<Rightarrow> (Some (ErrWriteFile err), fs')
           | (None, fs') \<Rightarrow> (None, fs')))"

definition JSONRepository_Load :: "JSON \<Rightarrow> FileSys \<Rightarrow> error + Todo list" where
  "JSONRepository_Load J fs =
     (if os_IsNotExist (os_Stat fs) then Inr []
      else
        (case os_ReadFile fs of
           Inl err \<Rightarrow> Inl (ErrReadFile err)
         | Inr data \<Rightarrow>
             if length data = 0 then Inr []
             else
               (case Unmarshal J data of
                  Inl err \<Rightarrow> Inl (ErrUnmarshal err)
                | Inr ts \<Rightarrow> Inr ts)))"

definition JSONRepository :: "JSON \<Rightarrow> FileSys Repository" where
  "JSONRepository J = \<lparr>Save = JSONRepository_Save J, Load = JSONRepository_Load J\<rparr>"

section \<open>What encoding/json does with a slice of todos\<close>

text \<open>
  To settle what a saved collection is read back as, the two library calls are also
  described, as far as the todos' struct tags (\<^verbatim>\<open>json:"id"\<close>, \<^verbatim>\<open>json:"description"\<close>,
  \<^verbatim>\<open>json:"completed"\<close>, \<^verbatim>\<open>json:"created_at"\<close>, \<^verbatim>\<open>json:"completed_at,omitempty"\<close>)
  determine them. \<^verbatim>\<open>json.MarshalIndent\<close> turns the slice into a JSON value and writes
  that value as text; \<^verbatim>\<open>json.Unmarshal\<close> reads text as a JSON value and stores the value
  into a slice.

  A JSON value. A number that is written as an integer literal is \<open>JInt\<close> of that
  integer, any other number is \<open>JNumber\<close> of its text; a string is the UTF-8 encoding
  of its characters.
\<close>

datatype json =
    JNull
  | JBool bool
  | JInt int
  | JNumber string
  | JString string
  | JArray "json list"
  | JObject "(string \<times> json) list"
















section \<open>Fixtures for concrete evaluation\<close>

text \<open>
  The todo of the storage tests' case "single todo"
  (created 2023-01-01 12:00:00 UTC, 1672574400 seconds after the epoch), and the
  document \<^verbatim>\<open>json.MarshalIndent(todos, "", "  ")\<close> writes for the slice holding it.
\<close>

definition single_todo :: Todo where
  "single_todo =
     \<lparr>ID = 1, Description = ''Test todo'', Completed = False,
      CreatedAt = 1672574400, CompletedAt = None\<rparr>"

definition single_todo_json :: string where
  "single_todo_json =
     ''[\<newline>  {\<newline>    \"id\": 1,\<newline>    \"description\": \"Test todo\",\<newline>    \"completed\": false,\<newline>    \"created_at\": \"2023-01-01T12:00:00Z\"\<newline>  }\<newline>]''"

text \<open>
  A stand-in for the JSON library that knows two documents only, the empty array and
  the one above, and rejects every other input, the empty input among them (as
  \<^verbatim>\<open>json.Unmarshal\<close> does: "unexpected end of JSON input"). It serves to evaluate the
  repository on concrete files; every theorem below holds for all \<open>JSON\<close> parameters.
\<close>

definition fixture_MarshalIndent :: "Todo list \<Rightarrow> error + string" where
  "fixture_MarshalIndent ts =
     (if ts = [] then Inr ''[]''
      else if ts = [single_todo] then Inr single_todo_json
      else Inl (ErrExternal ''not a fixture''))"

definition fixture_Unmarshal :: "string \<Rightarrow> error + Todo list" where
  "fixture_Unmarshal data =
     (if data = ''[]'' then Inr []
      else if data = single_todo_json then Inr [single_todo]
      else Inl (ErrExternal ''invalid JSON''))"

definition fixture_JSON :: JSON where
  "fixture_JSON = \<lparr>MarshalIndent = fixture_MarshalIndent, Unmarshal = fixture_Unmarshal\<rparr>"










text \<open>
  The two todos of the storage tests' case "multiple todos": the first pending, the
  second completed an hour after its creation; and a test double with nothing stored
  and no error injected.
\<close>

definition first_todo :: Todo where
  "first_todo =
     \<lparr>ID = 1, Description = ''First todo'', Completed = False,
      CreatedAt = 1672574400, CompletedAt = None\<rparr>"

definition second_todo :: Todo where
  "second_todo =
     \<lparr>ID = 2, Description = ''Second todo'', Completed = True,
      CreatedAt = 1672660800, CompletedAt = Some 1672664400\<rparr>"

definition two_todos :: Service where
  "two_todos = \<lparr>todos = [first_todo, second_todo], nextID = 3\<rparr>"

definition empty_mock :: MockRepository where
  "empty_mock = \<lparr>m_todos = [], m_err = None\<rparr>"

text \<open>A test double whose every call fails, as the tests set it up with \<^verbatim>\<open>err\<close>.\<close>

definition failing_mock :: MockRepository where
  "failing_mock = \<lparr>m_todos = [], m_err = Some (ErrExternal ''disk full'')\<rparr>"

text \<open>
  Arithmetic without rounding, on the reals, as an instance of the floating-point
  parameters for evaluating \<open>CompletionRate\<close> on concrete statistics.
\<close>

definition exact_ops :: "real float64_ops" where
  "exact_ops = \<lparr>float64 = (\<lambda>n. real_of_int (sint n)), fdiv = (/), fmul = (*)\<rparr>"

section \<open>The storage backend\<close>


lemma Load_readable_file:
  "node fs = File data \<Longrightarrow> readable fs \<Longrightarrow>
     JSONRepository_Load J fs =
       (if data = [] then Inr []
        else (case Unmarshal J data of Inl err \<Rightarrow> Inl (ErrUnmarshal err) | Inr ts \<Rightarrow> Inr ts))"
  by (simp add: JSONRepository_Load_def os_Stat_def os_IsNotExist_def os_ReadFile_def)

text \<open>
  Claim C10. When the backing file exists, can be read and is zero bytes long,
  \<open>Load\<close> returns the empty collection and no error, whatever the JSON library would
  make of empty input: the length check comes before \<^verbatim>\<open>json.Unmarshal\<close> is called.
\<close>

theorem Load_zero_byte_file:
  "node fs = File [] \<Longrightarrow> readable fs \<Longrightarrow> JSONRepository_Load J fs = Inr []"
  by (simp add: Load_readable_file)

theorem Load_zero_byte_file_witness:
  "node \<lparr>node = File [], readable = True, on_write = OpenFails\<rparr> = File []
   \<and> Unmarshal fixture_JSON [] = Inl (ErrExternal ''invalid JSON'')
   \<and> JSONRepository_Load fixture_JSON \<lparr>node = File [], readable = True, on_write = OpenFails\<rparr> = Inr []"
  using Load_zero_byte_file [of "\<lparr>node = File [], readable = True, on_write = OpenFails\<rparr>" fixture_JSON]
  by (simp add: fixture_JSON_def fixture_Unmarshal_def single_todo_json_def)

text \<open>
  Claim C7, as stated: \<open>Load\<close> returns the empty collection when the backing location
  does not exist, and a data-corruption error whenever the existing content cannot be
  parsed. The second half fails for a zero-byte file: its content is rejected by the
  parser, yet \<open>Load\<close> returns the empty collection and no error. The first half holds
  when the system reports that nothing exists at the path; a path that cannot be
  examined, such as one below a regular file, holds no file either, and there \<open>Load\<close>
  returns the error of the read.
\<close>

theorem Load_unparseable_counterexample:
  "fixture_Unmarshal [] = Inl (ErrExternal ''invalid JSON'')
   \<and> JSONRepository_Load fixture_JSON \<lparr>node = File [], readable = True, on_write = WriteSucceeds\<rparr>
       \<noteq> Inl (ErrUnmarshal (ErrExternal ''invalid JSON''))
   \<and> JSONRepository_Load fixture_JSON \<lparr>node = File [], readable = True, on_write = WriteSucceeds\<rparr>
       = Inr []
   \<and> JSONRepository_Load fixture_JSON \<lparr>node = Unreachable, readable = False, on_write = WriteSucceeds\<rparr>
       = Inl (ErrReadFile ENOTDIR)"
  by (simp add: fixture_JSON_def fixture_Unmarshal_def single_todo_json_def
      JSONRepository_Load_def os_Stat_def os_IsNotExist_def os_ReadFile_def ENOENT_def ENOTDIR_def)

text \<open>
  Claim C7, amended. \<open>Load\<close> returns the empty collection and no error when the
  system reports that nothing exists at the path (\<^verbatim>\<open>os.IsNotExist\<close> of the error of
  \<^verbatim>\<open>os.Stat\<close>); when the path cannot be examined it returns the error "failed to read
  file". For a file that can be read it returns the empty collection and no error when
  the file is zero bytes long, and the error "failed to unmarshal todos" (the
  specification's CorruptData), wrapping the parser's error, when the file is not
  empty and its content is rejected by the parser.
\<close>

theorem Load_missing_or_corrupt:
  "(node fs = NotExist \<longrightarrow> JSONRepository_Load J fs = Inr [])
   \<and> (node fs = Unreachable \<longrightarrow> JSONRepository_Load J fs = Inl (ErrReadFile ENOTDIR))
   \<and> (node fs = File [] \<and> readable fs \<longrightarrow> JSONRepository_Load J fs = Inr [])
   \<and> (node fs = File data \<and> readable fs \<and> data \<noteq> [] \<and> Unmarshal J data = Inl e
        \<longrightarrow> JSONRepository_Load J fs = Inl (ErrUnmarshal e))"
  by (simp add: JSONRepository_Load_def os_Stat_def os_IsNotExist_def os_ReadFile_def
      ENOENT_def ENOTDIR_def)

theorem Load_missing_or_corrupt_witness:
  "JSONRepository_Load fixture_JSON \<lparr>node = NotExist, readable = False, on_write = WriteSucceeds\<rparr> = Inr []
   \<and> JSONRepository_Load fixture_JSON \<lparr>node = Unreachable, readable = False, on_write = WriteSucceeds\<rparr>
       = Inl (ErrReadFile ENOTDIR)
   \<and> JSONRepository_Load fixture_JSON \<lparr>node = File [], readable = True, on_write = WriteSucceeds\<rparr> = Inr []
   \<and> JSONRepository_Load fixture_JSON
        \<lparr>node = File ''invalid json'', readable = True, on_write = WriteSucceeds\<rparr>
       = Inl (ErrUnmarshal (ErrExternal ''invalid JSON''))"
  using
    Load_missing_or_corrupt [where fs = "\<lparr>node = NotExist, readable = False, on_write = WriteSucceeds\<rparr>"
      and J = fixture_JSON]
    Load_missing_or_corrupt [where fs = "\<lparr>node = Unreachable, readable = False, on_write = WriteSucceeds\<rparr>"
      and J = fixture_JSON]
    Load_missing_or_corrupt [where fs = "\<lparr>node = File [], readable = True, on_write = WriteSucceeds\<rparr>"
      and J = fixture_JSON]
    Load_missing_or_corrupt [where fs = "\<lparr>node = File ''invalid json'', readable = True, on_write = WriteSucceeds\<rparr>"
      and data = "''invalid json''" and J = fixture_JSON and e = "ErrExternal ''invalid JSON''"]
  by (simp add: fixture_JSON_def fixture_Unmarshal_def single_todo_json_def)

section \<open>Saving and loading again\<close>









section \<open>The service: rejected input\<close>

text \<open>
  Claim C5. \<open>Add\<close> with the empty description fails with "description cannot be
  empty" (the specification's InvalidInput) and returns the service and the
  repository's state as they were: no item is added and the counter does not advance.
  The result does not depend on the repository \<open>R\<close>, so \<open>Save\<close> is not invoked.
\<close>

theorem Add_empty_description_rejected:
  "Add R now [] s w = (Inl ErrEmptyDescription, s, w)"
  by (simp add: Add_def)

section \<open>The service: completing and reopening\<close>

text \<open>
  The search loop returns nothing exactly when no todo has the identifier, and
  otherwise the position of the first todo that has it.
\<close>

lemma range_find_None: "range_find id' i ts = None \<longleftrightarrow> (\<forall>t\<in>set ts. ID t \<noteq> id')"
  by (induction ts arbitrary: i) auto

lemma range_find_first:
  "\<forall>x\<in>set xs. ID x \<noteq> id' \<Longrightarrow> ID t = id' \<Longrightarrow> range_find id' i (xs @ t # ys) = Some (i + length xs)"
  by (induction xs arbitrary: i) auto

lemma GetByID_absent: "\<forall>t\<in>set (todos s). ID t \<noteq> id' \<Longrightarrow> GetByID s id' = Inl (ErrNotFound id')"
  using range_find_None [of id' 0 "todos s"] by (simp add: GetByID_def)

lemma GetByID_first:
  "todos s = xs @ t # ys \<Longrightarrow> \<forall>x\<in>set xs. ID x \<noteq> id' \<Longrightarrow> ID t = id' \<Longrightarrow> GetByID s id' = Inr (length xs)"
  using range_find_first [of xs id' t 0 ys] by (simp add: GetByID_def)

lemma Complete_absent:
  "\<forall>t\<in>set (todos s). ID t \<noteq> id' \<Longrightarrow> Complete R now id' s w = (Some (ErrNotFound id'), s, w)"
  by (simp add: Complete_def GetByID_absent)

lemma Incomplete_absent:
  "\<forall>t\<in>set (todos s). ID t \<noteq> id' \<Longrightarrow> Incomplete R id' s w = (Some (ErrNotFound id'), s, w)"
  by (simp add: Incomplete_def GetByID_absent)

lemma Complete_first:
  assumes "todos s = xs @ t # ys" "\<forall>x\<in>set xs. ID x \<noteq> id'" "ID t = id'"
  shows "Complete R now id' s w =
    (if Completed t then (Some (ErrAlreadyCompleted id'), s, w)
     else (fst (Save R (xs @ t\<lparr>Completed := True, CompletedAt := Some now\<rparr> # ys) w),
           s\<lparr>todos := xs @ t\<lparr>Completed := True, CompletedAt := Some now\<rparr> # ys\<rparr>,
           snd (Save R (xs @ t\<lparr>Completed := True, CompletedAt := Some now\<rparr> # ys) w)))"
  using assms(1) GetByID_first [OF assms]
  by (simp add: Complete_def save_def Let_def split: prod.splits)

lemma Incomplete_first:
  assumes "todos s = xs @ t # ys" "\<forall>x\<in>set xs. ID x \<noteq> id'" "ID t = id'"
  shows "Incomplete R id' s w =
    (if \<not> Completed t then (Some (ErrAlreadyIncomplete id'), s, w)
     else (fst (Save R (xs @ t\<lparr>Completed := False, CompletedAt := None\<rparr> # ys) w),
           s\<lparr>todos := xs @ t\<lparr>Completed := False, CompletedAt := None\<rparr> # ys\<rparr>,
           snd (Save R (xs @ t\<lparr>Completed := False, CompletedAt := None\<rparr> # ys) w)))"
  using assms(1) GetByID_first [OF assms]
  by (simp add: Incomplete_def save_def Let_def split: prod.splits)

text \<open>
  The pointer \<open>GetByID\<close> returns is inside the slice and points at a todo with the
  identifier, so the reads and writes through it are in range.
\<close>

lemma range_find_in_range:
  "range_find id' i ts = Some j \<Longrightarrow> i \<le> j \<and> j < i + length ts \<and> ID (ts ! (j - i)) = id'"
proof (induction ts arbitrary: i)
  case Nil
  then show ?case by simp
next
  case (Cons t ts)
  show ?case
  proof (cases "ID t = id'")
    case True
    with Cons.prems show ?thesis by simp
  next
    case False
    with Cons.prems have "range_find id' (Suc i) ts = Some j" by simp
    from Cons.IH [OF this] have ih: "Suc i \<le> j" "j < Suc i + length ts" "ID (ts ! (j - Suc i)) = id'"
      by simp_all
    from ih(1) have "j - i = Suc (j - Suc i)" by simp
    with ih show ?thesis by simp
  qed
qed

lemma GetByID_in_range:
  "GetByID s id' = Inr i \<Longrightarrow> i < length (todos s) \<and> ID (todos s ! i) = id'"
  using range_find_in_range [of id' 0 "todos s" i]
  by (auto simp: GetByID_def split: option.splits)

text \<open>\<open>GetByStatus\<close> returns the todos with the given flag, in the order of \<open>GetAll\<close>.\<close>

lemma GetByStatus_loop_filter:
  "GetByStatus_loop completed filtered ts = filtered @ filter (\<lambda>t. Completed t = completed) ts"
  by (induction ts arbitrary: filtered) simp_all

lemma GetByStatus_filter:
  "GetByStatus s completed = filter (\<lambda>t. Completed t = completed) (GetAll s)"
  by (simp add: GetByStatus_def GetAll_def GetByStatus_loop_filter)

text \<open>
  Claim C2. \<open>Complete\<close> and \<open>Incomplete\<close> fail with "not found" (NotFound), leaving
  everything as it was, when no item has the identifier. Otherwise they act on the item
  \<open>t\<close> with the identifier (the first one, should the collection hold several):
  \<open>Complete\<close> fails with "already completed" and \<open>Incomplete\<close> with "already
  incomplete" (AlreadyInState) when \<open>t\<close> is already in the requested state; if not,
  \<open>Complete\<close> sets the flag and stores the current time as completion timestamp,
  \<open>Incomplete\<close> clears the flag and the timestamp, every other item stays as it is,
  and the updated collection is handed to the repository's \<open>Save\<close>, whose error and
  resulting state are returned.
\<close>

theorem Complete_Incomplete_outcomes:
  "((\<forall>t\<in>set (todos s). ID t \<noteq> id') \<longrightarrow>
      Complete R now id' s w = (Some (ErrNotFound id'), s, w)
      \<and> Incomplete R id' s w = (Some (ErrNotFound id'), s, w))
   \<and> (todos s = xs @ t # ys \<and> (\<forall>x\<in>set xs. ID x \<noteq> id') \<and> ID t = id' \<longrightarrow>
        (Completed t \<longrightarrow>
           Complete R now id' s w = (Some (ErrAlreadyCompleted id'), s, w)
           \<and> Incomplete R id' s w =
               (fst (Save R (xs @ t\<lparr>Completed := False, CompletedAt := None\<rparr> # ys) w),
                s\<lparr>todos := xs @ t\<lparr>Completed := False, CompletedAt := None\<rparr> # ys\<rparr>,
                snd (Save R (xs @ t\<lparr>Completed := False, CompletedAt := None\<rparr> # ys) w)))
        \<and> (\<not> Completed t \<longrightarrow>
           Incomplete R id' s w = (Some (ErrAlreadyIncomplete id'), s, w)
           \<and> Complete R now id' s w =
               (fst (Save R (xs @ t\<lparr>Completed := True, CompletedAt := Some now\<rparr> # ys) w),
                s\<lparr>todos := xs @ t\<lparr>Completed := True, CompletedAt := Some now\<rparr> # ys\<rparr>,
                snd (Save R (xs @ t\<lparr>Completed := True, CompletedAt := Some now\<rparr> # ys) w))))"
proof (intro conjI impI)
  assume "\<forall>t\<in>set (todos s). ID t \<noteq> id'"
  then show "Complete R now id' s w = (Some (ErrNotFound id'), s, w)"
    and "Incomplete R id' s w = (Some (ErrNotFound id'), s, w)"
    by (rule Complete_absent, rule Incomplete_absent)
next
  assume h: "todos s = xs @ t # ys \<and> (\<forall>x\<in>set xs. ID x \<noteq> id') \<and> ID t = id'" and c: "Completed t"
  from h have a: "todos s = xs @ t # ys" "\<forall>x\<in>set xs. ID x \<noteq> id'" "ID t = id'" by simp_all
  show "Complete R now id' s w = (Some (ErrAlreadyCompleted id'), s, w)"
    using Complete_first [OF a, of R now w] c by simp
  show "Incomplete R id' s w =
               (fst (Save R (xs @ t\<lparr>Completed := False, CompletedAt := None\<rparr> # ys) w),
                s\<lparr>todos := xs @ t\<lparr>Completed := False, CompletedAt := None\<rparr> # ys\<rparr>,
                snd (Save R (xs @ t\<lparr>Completed := False, CompletedAt := None\<rparr> # ys) w))"
    using Incomplete_first [OF a, of R w] c by simp
next
  assume h: "todos s = xs @ t # ys \<and> (\<forall>x\<in>set xs. ID x \<noteq> id') \<and> ID t = id'" and c: "\<not> Completed t"
  from h have a: "todos s = xs @ t # ys" "\<forall>x\<in>set xs. ID x \<noteq> id'" "ID t = id'" by simp_all
  show "Incomplete R id' s w = (Some (ErrAlreadyIncomplete id'), s, w)"
    using Incomplete_first [OF a, of R w] c by simp
  show "Complete R now id' s w =
               (fst (Save R (xs @ t\<lparr>Completed := True, CompletedAt := Some now\<rparr> # ys) w),
                s\<lparr>todos := xs @ t\<lparr>Completed := True, CompletedAt := Some now\<rparr> # ys\<rparr>,
                snd (Save R (xs @ t\<lparr>Completed := True, CompletedAt := Some now\<rparr> # ys) w))"
    using Complete_first [OF a, of R now w] c by simp
qed

theorem Complete_Incomplete_outcomes_witness:
  "Complete mockRepo 1672578000 7 two_todos empty_mock = (Some (ErrNotFound 7), two_todos, empty_mock)
   \<and> Incomplete mockRepo 7 two_todos empty_mock = (Some (ErrNotFound 7), two_todos, empty_mock)
   \<and> Complete mockRepo 1672578000 2 two_todos empty_mock = (Some (ErrAlreadyCompleted 2), two_todos, empty_mock)
   \<and> Incomplete mockRepo 1 two_todos empty_mock = (Some (ErrAlreadyIncomplete 1), two_todos, empty_mock)
   \<and> Complete mockRepo 1672578000 1 two_todos empty_mock =
       (None,
        \<lparr>todos = [first_todo\<lparr>Completed := True, CompletedAt := Some 1672578000\<rparr>, second_todo], nextID = 3\<rparr>,
        \<lparr>m_todos = [first_todo\<lparr>Completed := True, CompletedAt := Some 1672578000\<rparr>, second_todo], m_err = None\<rparr>)
   \<and> Incomplete mockRepo 2 two_todos empty_mock =
       (None,
        \<lparr>todos = [first_todo, second_todo\<lparr>Completed := False, CompletedAt := None\<rparr>], nextID = 3\<rparr>,
        \<lparr>m_todos = [first_todo, second_todo\<lparr>Completed := False, CompletedAt := None\<rparr>], m_err = None\<rparr>)"
  using
    Complete_Incomplete_outcomes [where s = two_todos and id' = 7 and R = mockRepo
      and now = 1672578000 and w = empty_mock and xs = "[]" and t = first_todo and ys = "[second_todo]"]
    Complete_Incomplete_outcomes [where s = two_todos and id' = 1 and R = mockRepo
      and now = 1672578000 and w = empty_mock and xs = "[]" and t = first_todo and ys = "[second_todo]"]
    Complete_Incomplete_outcomes [where s = two_todos and id' = 2 and R = mockRepo
      and now = 1672578000 and w = empty_mock and xs = "[first_todo]" and t = second_todo and ys = "[]"]
  by (simp add: two_todos_def first_todo_def second_todo_def empty_mock_def mockRepo_def
      MockRepository_Save_def)

section \<open>The service: deleting\<close>

lemma Delete_absent:
  "\<forall>t\<in>set (todos s). ID t \<noteq> id' \<Longrightarrow> Delete R id' s w = (Some (ErrNotFound id'), s, w)"
  using range_find_None [of id' 0 "todos s"] by (simp add: Delete_def)

lemma Delete_first:
  assumes "todos s = xs @ t # ys" "\<forall>x\<in>set xs. ID x \<noteq> id'" "ID t = id'"
  shows "Delete R id' s w =
    (fst (Save R (xs @ ys) w), s\<lparr>todos := xs @ ys\<rparr>, snd (Save R (xs @ ys) w))"
  using assms(1) range_find_first [OF assms(2,3), of 0 ys]
  by (simp add: Delete_def save_def Let_def split: prod.splits)

lemma distinct_ID_split:
  assumes "distinct (map ID ts)" "id' \<in> ID ` set ts"
  shows "\<exists>xs t ys. ts = xs @ t # ys \<and> ID t = id'
           \<and> (\<forall>x\<in>set xs. ID x \<noteq> id') \<and> (\<forall>y\<in>set ys. ID y \<noteq> id')"
proof -
  from assms(2) obtain t where "t \<in> set ts" "ID t = id'" by auto
  then obtain xs ys where ts: "ts = xs @ t # ys" by (auto simp: in_set_conv_decomp)
  with assms(1) \<open>ID t = id'\<close> have "(\<forall>x\<in>set xs. ID x \<noteq> id') \<and> (\<forall>y\<in>set ys. ID y \<noteq> id')"
    by (fastforce simp: image_iff)
  with ts \<open>ID t = id'\<close> show ?thesis by blast
qed

text \<open>
  Claim C6. In a service whose identifiers are unique, \<open>Delete\<close> of an identifier
  that is present leaves exactly the items with another identifier, in their order,
  which is one item fewer; it hands that collection to \<open>Save\<close> and returns its
  result. A second \<open>Delete\<close> of the same identifier, in whatever state the repository
  then is, fails with "not found" (NotFound) and changes nothing. \<open>Delete\<close> of an
  identifier that is not present fails with "not found" and changes nothing.
\<close>

theorem Delete_removes_exactly_one:
  assumes "distinct (map ID (todos s))"
  shows "(id' \<in> ID ` set (todos s) \<longrightarrow>
           Delete R id' s w =
             (fst (Save R (filter (\<lambda>t. ID t \<noteq> id') (todos s)) w),
              s\<lparr>todos := filter (\<lambda>t. ID t \<noteq> id') (todos s)\<rparr>,
              snd (Save R (filter (\<lambda>t. ID t \<noteq> id') (todos s)) w))
           \<and> length (filter (\<lambda>t. ID t \<noteq> id') (todos s)) + 1 = length (todos s)
           \<and> Delete R id' (s\<lparr>todos := filter (\<lambda>t. ID t \<noteq> id') (todos s)\<rparr>) w' =
               (Some (ErrNotFound id'), s\<lparr>todos := filter (\<lambda>t. ID t \<noteq> id') (todos s)\<rparr>, w'))
         \<and> (id' \<notin> ID ` set (todos s) \<longrightarrow> Delete R id' s w = (Some (ErrNotFound id'), s, w))"
proof (intro conjI impI)
  assume "id' \<in> ID ` set (todos s)"
  with assms obtain xs t ys where ts: "todos s = xs @ t # ys" and t: "ID t = id'"
    and xs: "\<forall>x\<in>set xs. ID x \<noteq> id'" and ys: "\<forall>y\<in>set ys. ID y \<noteq> id'"
    using distinct_ID_split by blast
  have f: "filter (\<lambda>t. ID t \<noteq> id') (todos s) = xs @ ys"
    using ts t xs ys by simp
  show "Delete R id' s w =
             (fst (Save R (filter (\<lambda>t. ID t \<noteq> id') (todos s)) w),
              s\<lparr>todos := filter (\<lambda>t. ID t \<noteq> id') (todos s)\<rparr>,
              snd (Save R (filter (\<lambda>t. ID t \<noteq> id') (todos s)) w))"
    unfolding f by (rule Delete_first [OF ts xs t])
  show "length (filter (\<lambda>t. ID t \<noteq> id') (todos s)) + 1 = length (todos s)"
    unfolding f by (simp add: ts)
  show "Delete R id' (s\<lparr>todos := filter (\<lambda>t. ID t \<noteq> id') (todos s)\<rparr>) w' =
               (Some (ErrNotFound id'), s\<lparr>todos := filter (\<lambda>t. ID t \<noteq> id') (todos s)\<rparr>, w')"
    by (rule Delete_absent) simp
next
  assume "id' \<notin> ID ` set (todos s)"
  then have "\<forall>t\<in>set (todos s). ID t \<noteq> id'" by auto
  then show "Delete R id' s w = (Some (ErrNotFound id'), s, w)" by (rule Delete_absent)
qed

theorem Delete_removes_exactly_one_witness:
  "distinct (map ID (todos two_todos))
   \<and> Delete mockRepo 1 two_todos empty_mock =
       (None, \<lparr>todos = [second_todo], nextID = 3\<rparr>, \<lparr>m_todos = [second_todo], m_err = None\<rparr>)
   \<and> Delete mockRepo 1 \<lparr>todos = [second_todo], nextID = 3\<rparr> \<lparr>m_todos = [second_todo], m_err = None\<rparr> =
       (Some (ErrNotFound 1), \<lparr>todos = [second_todo], nextID = 3\<rparr>, \<lparr>m_todos = [second_todo], m_err = None\<rparr>)
   \<and> Delete mockRepo 7 two_todos empty_mock = (Some (ErrNotFound 7), two_todos, empty_mock)"
proof -
  have d: "distinct (map ID (todos two_todos))"
    by (simp add: two_todos_def first_todo_def second_todo_def)
  from Delete_removes_exactly_one [OF d, of 1 mockRepo empty_mock "\<lparr>m_todos = [second_todo], m_err = None\<rparr>"]
    Delete_removes_exactly_one [OF d, of 7 mockRepo empty_mock] d
  show ?thesis
    by (simp add: two_todos_def first_todo_def second_todo_def mockRepo_def MockRepository_Save_def
        empty_mock_def)
qed

section \<open>The service: adding\<close>

text \<open>
  What \<open>Add\<close> does with a description that is not empty, and what a successful
  \<open>Add\<close> returns.
\<close>

lemma Add_valid:
  assumes "description \<noteq> []"
  shows "Add R now description s w =
    ((case fst (Save R (todos s @ [\<lparr>ID = nextID s, Description = description, Completed = False,
                                    CreatedAt = now, CompletedAt = None\<rparr>]) w) of
        Some err \<Rightarrow> Inl (ErrSaveTodo err)
      | None \<Rightarrow> Inr \<lparr>ID = nextID s, Description = description, Completed = False,
                      CreatedAt = now, CompletedAt = None\<rparr>),
     s\<lparr>todos := todos s @ [\<lparr>ID = nextID s, Description = description, Completed = False,
                              CreatedAt = now, CompletedAt = None\<rparr>],
       nextID := nextID s + 1\<rparr>,
     snd (Save R (todos s @ [\<lparr>ID = nextID s, Description = description, Completed = False,
                                CreatedAt = now, CompletedAt = None\<rparr>]) w))"
  using assms by (simp add: Add_def save_def Let_def split: prod.splits option.splits)

lemma Add_returns_new:
  "Add R now description s w = (Inr t, s', w') \<Longrightarrow>
     t = \<lparr>ID = nextID s, Description = description, Completed = False,
          CreatedAt = now, CompletedAt = None\<rparr>
     \<and> todos s' = todos s @ [t] \<and> nextID s' = nextID s + 1"
  by (auto simp: Add_def save_def Let_def split: if_splits prod.splits option.splits)

section \<open>The invariant of a todo item\<close>

lemma Add_todo_inv:
  "\<forall>t\<in>set (todos s). todo_inv t \<Longrightarrow> \<forall>t\<in>set (todos (fst (snd (Add R now description s w)))). todo_inv t"
proof (cases "description = []")
  case True
  assume "\<forall>t\<in>set (todos s). todo_inv t"
  with True show ?thesis by (simp add: Add_def)
next
  case False
  assume "\<forall>t\<in>set (todos s). todo_inv t"
  with False show ?thesis by (auto simp: Add_valid todo_inv_def)
qed

lemma Complete_todo_inv:
  assumes "\<forall>t\<in>set (todos s). todo_inv t"
  shows "\<forall>t\<in>set (todos (fst (snd (Complete R now id' s w)))). todo_inv t"
proof (cases "\<forall>t\<in>set (todos s). ID t \<noteq> id'")
  case True
  with assms show ?thesis by (simp add: Complete_absent)
next
  case False
  then obtain xs t ys where d: "todos s = xs @ t # ys" "\<forall>x\<in>set xs. ID x \<noteq> id'" "ID t = id'"
    using split_list_first_prop [of "todos s" "\<lambda>t. ID t = id'"] by auto
  from assms d(1) show ?thesis
    by (auto simp: Complete_first [OF d] todo_inv_def)
qed

lemma Incomplete_todo_inv:
  assumes "\<forall>t\<in>set (todos s). todo_inv t"
  shows "\<forall>t\<in>set (todos (fst (snd (Incomplete R id' s w)))). todo_inv t"
proof (cases "\<forall>t\<in>set (todos s). ID t \<noteq> id'")
  case True
  with assms show ?thesis by (simp add: Incomplete_absent)
next
  case False
  then obtain xs t ys where d: "todos s = xs @ t # ys" "\<forall>x\<in>set xs. ID x \<noteq> id'" "ID t = id'"
    using split_list_first_prop [of "todos s" "\<lambda>t. ID t = id'"] by auto
  from assms d(1) show ?thesis
    by (auto simp: Incomplete_first [OF d] todo_inv_def)
qed

lemma Delete_todo_inv:
  assumes "\<forall>t\<in>set (todos s). todo_inv t"
  shows "\<forall>t\<in>set (todos (fst (snd (Delete R id' s w)))). todo_inv t"
proof (cases "\<forall>t\<in>set (todos s). ID t \<noteq> id'")
  case True
  with assms show ?thesis by (simp add: Delete_absent)
next
  case False
  then obtain xs t ys where d: "todos s = xs @ t # ys" "\<forall>x\<in>set xs. ID x \<noteq> id'" "ID t = id'"
    using split_list_first_prop [of "todos s" "\<lambda>t. ID t = id'"] by auto
  from assms d(1) show ?thesis
    by (auto simp: Delete_first [OF d])
qed

text \<open>
  Claim C4. The invariant of an item (no completion timestamp while the flag is
  false, a completion timestamp while it is true) holds for the item \<open>Add\<close> returns
  and for the item it appends, and it is preserved by every operation: if every item
  of the collection satisfies it, so does every item of the collection after \<open>Add\<close>,
  \<open>Complete\<close>, \<open>Incomplete\<close> or \<open>Delete\<close>, whatever the outcome of the call.
\<close>

theorem todo_inv_preserved:
  "(\<forall>t. fst (Add R now description s w) = Inr t \<longrightarrow> todo_inv t)
   \<and> (description \<noteq> [] \<longrightarrow> todo_inv (last (todos (fst (snd (Add R now description s w))))))
   \<and> ((\<forall>t\<in>set (todos s). todo_inv t) \<longrightarrow>
        (\<forall>t\<in>set (todos (fst (snd (Add R now description s w)))). todo_inv t)
        \<and> (\<forall>t\<in>set (todos (fst (snd (Complete R now id' s w)))). todo_inv t)
        \<and> (\<forall>t\<in>set (todos (fst (snd (Incomplete R id' s w)))). todo_inv t)
        \<and> (\<forall>t\<in>set (todos (fst (snd (Delete R id' s w)))). todo_inv t))"
proof (intro conjI impI allI)
  fix t assume "fst (Add R now description s w) = Inr t"
  then obtain s' w' where "Add R now description s w = (Inr t, s', w')"
    by (cases "Add R now description s w") auto
  from Add_returns_new [OF this] show "todo_inv t" by (simp add: todo_inv_def)
next
  assume "description \<noteq> []"
  then show "todo_inv (last (todos (fst (snd (Add R now description s w)))))"
    by (simp add: Add_valid todo_inv_def)
next
  assume a: "\<forall>t\<in>set (todos s). todo_inv t"
  show "\<forall>t\<in>set (todos (fst (snd (Add R now description s w)))). todo_inv t"
    by (rule Add_todo_inv [OF a])
  show "\<forall>t\<in>set (todos (fst (snd (Complete R now id' s w)))). todo_inv t"
    by (rule Complete_todo_inv [OF a])
  show "\<forall>t\<in>set (todos (fst (snd (Incomplete R id' s w)))). todo_inv t"
    by (rule Incomplete_todo_inv [OF a])
  show "\<forall>t\<in>set (todos (fst (snd (Delete R id' s w)))). todo_inv t"
    by (rule Delete_todo_inv [OF a])
qed

theorem todo_inv_preserved_witness:
  "list_all todo_inv (todos two_todos)
   \<and> fst (Add mockRepo 1672578000 ''Third todo'' two_todos empty_mock) =
       Inr \<lparr>ID = 3, Description = ''Third todo'', Completed = False,
            CreatedAt = 1672578000, CompletedAt = None\<rparr>
   \<and> todo_inv \<lparr>ID = 3, Description = ''Third todo'', Completed = False,
                CreatedAt = 1672578000, CompletedAt = None\<rparr>
   \<and> list_all todo_inv (todos (fst (snd (Add mockRepo 1672578000 ''Third todo'' two_todos empty_mock))))
   \<and> list_all todo_inv (todos (fst (snd (Complete mockRepo 1672578000 1 two_todos empty_mock))))
   \<and> list_all todo_inv (todos (fst (snd (Incomplete mockRepo 2 two_todos empty_mock))))
   \<and> list_all todo_inv (todos (fst (snd (Delete mockRepo 1 two_todos empty_mock))))"
proof -
  have h: "\<forall>t\<in>set (todos two_todos). todo_inv t"
    by (simp add: two_todos_def first_todo_def second_todo_def todo_inv_def)
  have a: "fst (Add mockRepo 1672578000 ''Third todo'' two_todos empty_mock) =
       Inr \<lparr>ID = 3, Description = ''Third todo'', Completed = False,
            CreatedAt = 1672578000, CompletedAt = None\<rparr>"
    by (simp add: Add_def Let_def save_def mockRepo_def MockRepository_Save_def empty_mock_def two_todos_def)
  note T = todo_inv_preserved [where R = mockRepo and now = 1672578000
      and description = "''Third todo''" and s = two_todos and w = empty_mock]
  from T [where id' = 1, THEN conjunct1] a
  have n: "todo_inv \<lparr>ID = 3, Description = ''Third todo'', Completed = False,
                CreatedAt = 1672578000, CompletedAt = None\<rparr>"
    by blast
  from T [where id' = 1, THEN conjunct2, THEN conjunct2] h
  have p1: "(\<forall>t\<in>set (todos (fst (snd (Add mockRepo 1672578000 ''Third todo'' two_todos empty_mock)))). todo_inv t)
    \<and> (\<forall>t\<in>set (todos (fst (snd (Complete mockRepo 1672578000 1 two_todos empty_mock)))). todo_inv t)
    \<and> (\<forall>t\<in>set (todos (fst (snd (Delete mockRepo 1 two_todos empty_mock)))). todo_inv t)"
    by blast
  from T [where id' = 2, THEN conjunct2, THEN conjunct2] h
  have p2: "\<forall>t\<in>set (todos (fst (snd (Incomplete mockRepo 2 two_todos empty_mock)))). todo_inv t"
    by blast
  from h a n p1 p2 show ?thesis
    unfolding list_all_iff by blast
qed

section \<open>The service: a failed save\<close>

text \<open>
  Claim C8, as stated: whenever \<open>Save\<close> fails during a mutating operation, the
  mutation stays in memory, so that memory and storage diverge. The mutation does stay,
  but the divergence does not follow in every state. With a file holding the empty
  collection that cannot be opened for writing, \<open>Add\<close> fails to save and leaves one
  todo in memory; in that state \<open>Delete\<close> of the todo fails to save as well, keeps its
  mutation, and leaves in memory the empty collection, which is what \<open>Load\<close> returns.
\<close>

theorem Save_failure_counterexample:
  "Add (JSONRepository fixture_JSON) 1672574400 ''Test todo'' \<lparr>todos = [], nextID = 1\<rparr>
       \<lparr>node = File ''[]'', readable = True, on_write = OpenFails\<rparr> =
     (Inl (ErrSaveTodo (ErrWriteFile (ErrExternal ''permission denied''))),
      \<lparr>todos = [single_todo], nextID = 2\<rparr>,
      \<lparr>node = File ''[]'', readable = True, on_write = OpenFails\<rparr>)
   \<and> Delete (JSONRepository fixture_JSON) 1 \<lparr>todos = [single_todo], nextID = 2\<rparr>
       \<lparr>node = File ''[]'', readable = True, on_write = OpenFails\<rparr> =
     (Some (ErrWriteFile (ErrExternal ''permission denied'')),
      \<lparr>todos = [], nextID = 2\<rparr>,
      \<lparr>node = File ''[]'', readable = True, on_write = OpenFails\<rparr>)
   \<and> Load (JSONRepository fixture_JSON) \<lparr>node = File ''[]'', readable = True, on_write = OpenFails\<rparr> =
     Inr (todos \<lparr>todos = [], nextID = 2\<rparr>)"
  by (simp add: Add_def Delete_def Let_def save_def JSONRepository_def JSONRepository_Save_def
      JSONRepository_Load_def fixture_JSON_def fixture_MarshalIndent_def fixture_Unmarshal_def
      os_WriteFile_def os_Stat_def os_IsNotExist_def os_ReadFile_def single_todo_def)

text \<open>
  Claim C8, amended. When the repository's \<open>Save\<close> returns an error during a mutating
  operation, the operation reports it (\<open>Add\<close> wrapped as "failed to save todo", the
  specification's PersistenceFailed; the others as it is) and the service it leaves
  holds the mutation: after \<open>Add\<close> the new item is in the collection and the counter
  has advanced, after \<open>Complete\<close> and \<open>Incomplete\<close> the item is updated, after
  \<open>Delete\<close> it is gone. The collection in memory is then not the one before the call;
  so whenever the repository, after the failed \<open>Save\<close>, loads the collection that was
  in memory before the call, memory and storage differ.
\<close>

theorem Save_failure_not_rolled_back:
  "(description \<noteq> []
      \<and> Save R (todos s @ [\<lparr>ID = nextID s, Description = description, Completed = False,
                             CreatedAt = now, CompletedAt = None\<rparr>]) w = (Some err, w')
     \<longrightarrow> Add R now description s w =
           (Inl (ErrSaveTodo err),
            s\<lparr>todos := todos s @ [\<lparr>ID = nextID s, Description = description, Completed = False,
                                     CreatedAt = now, CompletedAt = None\<rparr>],
              nextID := nextID s + 1\<rparr>,
            w')
         \<and> todos s @ [\<lparr>ID = nextID s, Description = description, Completed = False,
                        CreatedAt = now, CompletedAt = None\<rparr>] \<noteq> todos s
         \<and> (Load R w' = Inr (todos s) \<longrightarrow>
              Load R w' \<noteq> Inr (todos s @ [\<lparr>ID = nextID s, Description = description,
                                           Completed = False, CreatedAt = now, CompletedAt = None\<rparr>])))
   \<and> (todos s = xs @ t # ys \<and> (\<forall>x\<in>set xs. ID x \<noteq> id') \<and> ID t = id' \<longrightarrow>
        (\<not> Completed t
           \<and> Save R (xs @ t\<lparr>Completed := True, CompletedAt := Some now\<rparr> # ys) w = (Some err, w')
          \<longrightarrow> Complete R now id' s w =
                (Some err, s\<lparr>todos := xs @ t\<lparr>Completed := True, CompletedAt := Some now\<rparr> # ys\<rparr>, w')
              \<and> xs @ t\<lparr>Completed := True, CompletedAt := Some now\<rparr> # ys \<noteq> todos s
              \<and> (Load R w' = Inr (todos s) \<longrightarrow>
                   Load R w' \<noteq> Inr (xs @ t\<lparr>Completed := True, CompletedAt := Some now\<rparr> # ys)))
        \<and> (Completed t
           \<and> Save R (xs @ t\<lparr>Completed := False, CompletedAt := None\<rparr> # ys) w = (Some err, w')
          \<longrightarrow> Incomplete R id' s w =
                (Some err, s\<lparr>todos := xs @ t\<lparr>Completed := False, CompletedAt := None\<rparr> # ys\<rparr>, w')
              \<and> xs @ t\<lparr>Completed := False, CompletedAt := None\<rparr> # ys \<noteq> todos s
              \<and> (Load R w' = Inr (todos s) \<longrightarrow>
                   Load R w' \<noteq> Inr (xs @ t\<lparr>Completed := False, CompletedAt := None\<rparr> # ys)))
        \<and> (Save R (xs @ ys) w = (Some err, w')
          \<longrightarrow> Delete R id' s w = (Some err, s\<lparr>todos := xs @ ys\<rparr>, w')
              \<and> xs @ ys \<noteq> todos s
              \<and> (Load R w' = Inr (todos s) \<longrightarrow> Load R w' \<noteq> Inr (xs @ ys))))"
proof -
  let ?new = "\<lparr>ID = nextID s, Description = description, Completed = False,
               CreatedAt = now, CompletedAt = None\<rparr>"
  let ?done = "t\<lparr>Completed := True, CompletedAt := Some now\<rparr>"
  let ?undone = "t\<lparr>Completed := False, CompletedAt := None\<rparr>"
  have add: "Add R now description s w =
      (Inl (ErrSaveTodo err), s\<lparr>todos := todos s @ [?new], nextID := nextID s + 1\<rparr>, w')"
    if "description \<noteq> []" "Save R (todos s @ [?new]) w = (Some err, w')"
    using that by (simp add: Add_valid)
  have add_ne: "todos s @ [?new] \<noteq> todos s" by simp
  have complete: "Complete R now id' s w = (Some err, s\<lparr>todos := xs @ ?done # ys\<rparr>, w')"
    if "todos s = xs @ t # ys" "\<forall>x\<in>set xs. ID x \<noteq> id'" "ID t = id'" "\<not> Completed t"
      "Save R (xs @ ?done # ys) w = (Some err, w')"
    using that(4,5) by (simp add: Complete_first [OF that(1,2,3)])
  have complete_ne: "xs @ ?done # ys \<noteq> todos s"
    if "todos s = xs @ t # ys" "\<not> Completed t"
  proof -
    from that(2) have "?done \<noteq> t" by (cases t) auto
    with that(1) show ?thesis by simp
  qed
  have incomplete: "Incomplete R id' s w = (Some err, s\<lparr>todos := xs @ ?undone # ys\<rparr>, w')"
    if "todos s = xs @ t # ys" "\<forall>x\<in>set xs. ID x \<noteq> id'" "ID t = id'" "Completed t"
      "Save R (xs @ ?undone # ys) w = (Some err, w')"
    using that(4,5) by (simp add: Incomplete_first [OF that(1,2,3)])
  have incomplete_ne: "xs @ ?undone # ys \<noteq> todos s"
    if "todos s = xs @ t # ys" "Completed t"
  proof -
    from that(2) have "?undone \<noteq> t" by (cases t) auto
    with that(1) show ?thesis by simp
  qed
  have delete: "Delete R id' s w = (Some err, s\<lparr>todos := xs @ ys\<rparr>, w')"
    if "todos s = xs @ t # ys" "\<forall>x\<in>set xs. ID x \<noteq> id'" "ID t = id'"
      "Save R (xs @ ys) w = (Some err, w')"
    using that(4) by (simp add: Delete_first [OF that(1,2,3)])
  have delete_ne: "xs @ ys \<noteq> todos s" if "todos s = xs @ t # ys"
    using that by simp
  have differ: "Load R w' \<noteq> Inr zs" if "zs \<noteq> todos s" "Load R w' = Inr (todos s)" for zs
    using that by auto
  show ?thesis
  proof (intro conjI impI)
    assume h: "description \<noteq> [] \<and> Save R (todos s @ [?new]) w = (Some err, w')"
    then show "Add R now description s w =
      (Inl (ErrSaveTodo err), s\<lparr>todos := todos s @ [?new], nextID := nextID s + 1\<rparr>, w')"
      by (intro add) simp_all
    show "todos s @ [?new] \<noteq> todos s" by (rule add_ne)
    assume "Load R w' = Inr (todos s)"
    with add_ne show "Load R w' \<noteq> Inr (todos s @ [?new])" by (rule differ)
  next
    assume d: "todos s = xs @ t # ys \<and> (\<forall>x\<in>set xs. ID x \<noteq> id') \<and> ID t = id'"
      and c: "\<not> Completed t \<and> Save R (xs @ ?done # ys) w = (Some err, w')"
    from d c show "Complete R now id' s w = (Some err, s\<lparr>todos := xs @ ?done # ys\<rparr>, w')"
      by (intro complete) simp_all
    from d c show ne: "xs @ ?done # ys \<noteq> todos s"
      by (intro complete_ne) simp_all
    assume "Load R w' = Inr (todos s)"
    with ne show "Load R w' \<noteq> Inr (xs @ ?done # ys)" by (rule differ)
  next
    assume d: "todos s = xs @ t # ys \<and> (\<forall>x\<in>set xs. ID x \<noteq> id') \<and> ID t = id'"
      and c: "Completed t \<and> Save R (xs @ ?undone # ys) w = (Some err, w')"
    from d c show "Incomplete R id' s w = (Some err, s\<lparr>todos := xs @ ?undone # ys\<rparr>, w')"
      by (intro incomplete) simp_all
    from d c show ne: "xs @ ?undone # ys \<noteq> todos s"
      by (intro incomplete_ne) simp_all
    assume "Load R w' = Inr (todos s)"
    with ne show "Load R w' \<noteq> Inr (xs @ ?undone # ys)" by (rule differ)
  next
    assume d: "todos s = xs @ t # ys \<and> (\<forall>x\<in>set xs. ID x \<noteq> id') \<and> ID t = id'"
      and c: "Save R (xs @ ys) w = (Some err, w')"
    from d c show "Delete R id' s w = (Some err, s\<lparr>todos := xs @ ys\<rparr>, w')"
      by (intro delete) simp_all
    from d show ne: "xs @ ys \<noteq> todos s"
      by (intro delete_ne) simp_all
    assume "Load R w' = Inr (todos s)"
    with ne show "Load R w' \<noteq> Inr (xs @ ys)" by (rule differ)
  qed
qed

theorem Save_failure_not_rolled_back_witness:
  "Add (JSONRepository fixture_JSON) 1672574400 ''Test todo'' \<lparr>todos = [], nextID = 1\<rparr>
       \<lparr>node = File ''[]'', readable = True, on_write = OpenFails\<rparr> =
     (Inl (ErrSaveTodo (ErrWriteFile (ErrExternal ''permission denied''))),
      \<lparr>todos = [single_todo], nextID = 2\<rparr>,
      \<lparr>node = File ''[]'', readable = True, on_write = OpenFails\<rparr>)
   \<and> Load (JSONRepository fixture_JSON) \<lparr>node = File ''[]'', readable = True, on_write = OpenFails\<rparr>
       = Inr []
   \<and> Load (JSONRepository fixture_JSON) \<lparr>node = File ''[]'', readable = True, on_write = OpenFails\<rparr>
       \<noteq> Inr [single_todo]
   \<and> Add (JSONRepository fixture_JSON) 1672574400 ''Test todo'' \<lparr>todos = [], nextID = 1\<rparr>
       \<lparr>node = File ''[]'', readable = True, on_write = WriteFailsAfter 0\<rparr> =
     (Inl (ErrSaveTodo (ErrWriteFile (ErrExternal ''no space left on device''))),
      \<lparr>todos = [single_todo], nextID = 2\<rparr>,
      \<lparr>node = File [], readable = True, on_write = WriteFailsAfter 0\<rparr>)
   \<and> Complete mockRepo 1672578000 1 two_todos failing_mock =
       (Some (ErrExternal ''disk full''),
        \<lparr>todos = [first_todo\<lparr>Completed := True, CompletedAt := Some 1672578000\<rparr>, second_todo], nextID = 3\<rparr>,
        failing_mock)
   \<and> Incomplete mockRepo 2 two_todos failing_mock =
       (Some (ErrExternal ''disk full''),
        \<lparr>todos = [first_todo, second_todo\<lparr>Completed := False, CompletedAt := None\<rparr>], nextID = 3\<rparr>,
        failing_mock)
   \<and> Delete mockRepo 1 two_todos failing_mock =
       (Some (ErrExternal ''disk full''), \<lparr>todos = [second_todo], nextID = 3\<rparr>, failing_mock)"
proof -
  let ?R = "JSONRepository fixture_JSON"
  let ?s0 = "\<lparr>todos = [], nextID = 1\<rparr>"
  let ?fo = "\<lparr>node = File ''[]'', readable = True, on_write = OpenFails\<rparr>"
  let ?ft = "\<lparr>node = File ''[]'', readable = True, on_write = WriteFailsAfter 0\<rparr>"
  have m: "fixture_MarshalIndent [single_todo] = Inr single_todo_json"
    by (simp add: fixture_MarshalIndent_def)
  have s1: "Save ?R [single_todo] ?fo = (Some (ErrWriteFile (ErrExternal ''permission denied'')), ?fo)"
    by (simp add: JSONRepository_def JSONRepository_Save_def fixture_JSON_def m os_WriteFile_def)
  have s1': "Save ?R [single_todo] ?ft =
      (Some (ErrWriteFile (ErrExternal ''no space left on device'')),
       \<lparr>node = File [], readable = True, on_write = WriteFailsAfter 0\<rparr>)"
    by (simp add: JSONRepository_def JSONRepository_Save_def fixture_JSON_def m os_WriteFile_def)
  have s2: "\<And>ts. Save mockRepo ts failing_mock = (Some (ErrExternal ''disk full''), failing_mock)"
    by (simp add: mockRepo_def MockRepository_Save_def failing_mock_def)
  have l: "Load ?R ?fo = Inr []"
    by (simp add: JSONRepository_def JSONRepository_Load_def os_Stat_def os_IsNotExist_def
        os_ReadFile_def fixture_JSON_def fixture_Unmarshal_def)
  from Save_failure_not_rolled_back [where R = ?R and now = 1672574400
      and description = "''Test todo''" and s = ?s0 and w = ?fo and w' = ?fo
      and err = "ErrWriteFile (ErrExternal ''permission denied'')", THEN conjunct1] s1 l
  have a: "Add ?R 1672574400 ''Test todo'' ?s0 ?fo =
     (Inl (ErrSaveTodo (ErrWriteFile (ErrExternal ''permission denied''))),
      \<lparr>todos = [single_todo], nextID = 2\<rparr>, ?fo)"
    and dv: "Load ?R ?fo \<noteq> Inr [single_todo]"
    by (simp_all add: single_todo_def)
  from Save_failure_not_rolled_back [where R = ?R and now = 1672574400
      and description = "''Test todo''" and s = ?s0 and w = ?ft
      and w' = "\<lparr>node = File [], readable = True, on_write = WriteFailsAfter 0\<rparr>"
      and err = "ErrWriteFile (ErrExternal ''no space left on device'')", THEN conjunct1] s1'
  have a': "Add ?R 1672574400 ''Test todo'' ?s0 ?ft =
     (Inl (ErrSaveTodo (ErrWriteFile (ErrExternal ''no space left on device''))),
      \<lparr>todos = [single_todo], nextID = 2\<rparr>,
      \<lparr>node = File [], readable = True, on_write = WriteFailsAfter 0\<rparr>)"
    by (simp add: single_todo_def)
  note T = Save_failure_not_rolled_back [where now = 1672578000 and s = two_todos and R = mockRepo
      and w = failing_mock and w' = failing_mock and err = "ErrExternal ''disk full''"]
  from T [where xs = "[]" and t = first_todo and ys = "[second_todo]" and id' = 1, THEN conjunct2] s2
  have c: "Complete mockRepo 1672578000 1 two_todos failing_mock =
       (Some (ErrExternal ''disk full''),
        \<lparr>todos = [first_todo\<lparr>Completed := True, CompletedAt := Some 1672578000\<rparr>, second_todo], nextID = 3\<rparr>,
        failing_mock)"
    and d: "Delete mockRepo 1 two_todos failing_mock =
       (Some (ErrExternal ''disk full''), \<lparr>todos = [second_todo], nextID = 3\<rparr>, failing_mock)"
    by (simp_all add: two_todos_def first_todo_def)
  from T [where xs = "[first_todo]" and t = second_todo and ys = "[]" and id' = 2, THEN conjunct2] s2
  have i: "Incomplete mockRepo 2 two_todos failing_mock =
       (Some (ErrExternal ''disk full''),
        \<lparr>todos = [first_todo, second_todo\<lparr>Completed := False, CompletedAt := None\<rparr>], nextID = 3\<rparr>,
        failing_mock)"
    by (simp add: two_todos_def first_todo_def second_todo_def)
  from a l dv a' c i d show ?thesis by (simp only: simp_thms)
qed

section \<open>Statistics\<close>

text \<open>
  The counting loop adds to the two counters the number of completed and of pending
  todos; a count below \<open>2 ^ 63\<close> is read back from a Go \<^verbatim>\<open>int\<close> as it is.
\<close>

lemma GetStats_loop_counts:
  "GetStats_loop st ts =
     st\<lparr>Stats.Completed := Stats.Completed st + of_nat (length (filter Completed ts)),
        Pending := Pending st + of_nat (length (filter (\<lambda>t. \<not> Completed t) ts))\<rparr>"
  by (induction ts arbitrary: st) simp_all

lemma sint_of_nat_small:
  assumes "n < 2 ^ 63"
  shows "sint (of_nat n :: goint) = int n"
proof -
  have "sint (of_nat n :: goint) = signed_take_bit 63 (int n)"
    using sint_sbintrunc' [where 'a = 64, of "int n"] by simp
  also from assms have "\<dots> = int n"
    by (simp add: signed_take_bit_int_eq_self_iff)
  finally show ?thesis .
qed

lemma length_filter_le_total:
  "length (filter P ts) \<le> length ts"
  by simp

text \<open>
  Claim C9. \<open>GetStats\<close> returns \<open>Total\<close> the number of items, \<open>Completed\<close> the number
  of items whose flag is true and \<open>Pending\<close> the number of items whose flag is false, as
  Go \<^verbatim>\<open>int\<close>s (a slice has fewer than \<open>2 ^ 63\<close> elements, so the three read back as the
  counts), with \<open>Total = Completed + Pending\<close>. \<open>CompletionRate\<close> returns 0 when
  \<open>Total\<close> is 0, and otherwise \<open>Completed\<close> divided by \<open>Total\<close>, times 100, computed
  with the \<^verbatim>\<open>float64\<close> operations.
\<close>

theorem GetStats_counts:
  "Total (GetStats s) = of_nat (length (todos s))
   \<and> Stats.Completed (GetStats s) = of_nat (length (filter Completed (todos s)))
   \<and> Pending (GetStats s) = of_nat (length (filter (\<lambda>t. \<not> Completed t) (todos s)))
   \<and> Total (GetStats s) = Stats.Completed (GetStats s) + Pending (GetStats s)
   \<and> (length (todos s) < 2 ^ 63 \<longrightarrow>
        sint (Total (GetStats s)) = int (length (todos s))
        \<and> sint (Stats.Completed (GetStats s)) = int (length (filter Completed (todos s)))
        \<and> sint (Pending (GetStats s)) = int (length (filter (\<lambda>t. \<not> Completed t) (todos s))))
   \<and> (Total (GetStats s) = 0 \<longrightarrow> CompletionRate F (GetStats s) = float64 F 0)
   \<and> (Total (GetStats s) \<noteq> 0 \<longrightarrow>
        CompletionRate F (GetStats s) =
          fmul F (fdiv F (float64 F (Stats.Completed (GetStats s))) (float64 F (Total (GetStats s))))
            (float64 F 100))"
proof -
  have t: "Total (GetStats s) = of_nat (length (todos s))"
    and c: "Stats.Completed (GetStats s) = of_nat (length (filter Completed (todos s)))"
    and p: "Pending (GetStats s) = of_nat (length (filter (\<lambda>t. \<not> Completed t) (todos s)))"
    by (simp_all add: GetStats_def GetStats_loop_counts)
  have "length (todos s) =
      length (filter Completed (todos s)) + length (filter (\<lambda>t. \<not> Completed t) (todos s))"
    by (simp add: sum_length_filter_compl)
  then have "(of_nat (length (todos s)) :: goint) =
      of_nat (length (filter Completed (todos s)) + length (filter (\<lambda>t. \<not> Completed t) (todos s)))"
    by simp
  then have sum: "Total (GetStats s) = Stats.Completed (GetStats s) + Pending (GetStats s)"
    by (simp add: t c p)
  have small: "length (todos s) < 2 ^ 63 \<longrightarrow>
        sint (Total (GetStats s)) = int (length (todos s))
        \<and> sint (Stats.Completed (GetStats s)) = int (length (filter Completed (todos s)))
        \<and> sint (Pending (GetStats s)) = int (length (filter (\<lambda>t. \<not> Completed t) (todos s)))"
  proof
    assume b: "length (todos s) < 2 ^ 63"
    have "length (filter Completed (todos s)) \<le> length (todos s)"
      "length (filter (\<lambda>t. \<not> Completed t) (todos s)) \<le> length (todos s)"
      by (rule length_filter_le_total)+
    with b have "length (filter Completed (todos s)) < 2 ^ 63"
      "length (filter (\<lambda>t. \<not> Completed t) (todos s)) < 2 ^ 63"
      by linarith+
    with b show "sint (Total (GetStats s)) = int (length (todos s))
        \<and> sint (Stats.Completed (GetStats s)) = int (length (filter Completed (todos s)))
        \<and> sint (Pending (GetStats s)) = int (length (filter (\<lambda>t. \<not> Completed t) (todos s)))"
      unfolding t c p by (simp add: sint_of_nat_small)
  qed
  have rate: "(Total (GetStats s) = 0 \<longrightarrow> CompletionRate F (GetStats s) = float64 F 0)
   \<and> (Total (GetStats s) \<noteq> 0 \<longrightarrow>
        CompletionRate F (GetStats s) =
          fmul F (fdiv F (float64 F (Stats.Completed (GetStats s))) (float64 F (Total (GetStats s))))
            (float64 F 100))"
    by (simp add: CompletionRate_def)
  from t c p sum small rate show ?thesis by blast
qed

theorem GetStats_counts_witness:
  "length (todos \<lparr>todos = [first_todo, second_todo, single_todo\<lparr>ID := 3\<rparr>], nextID = 4\<rparr>) < 2 ^ 63
   \<and> GetStats \<lparr>todos = [first_todo, second_todo, single_todo\<lparr>ID := 3\<rparr>], nextID = 4\<rparr> =
       \<lparr>Total = 3, Completed = 1, Pending = 2\<rparr>
   \<and> sint (Total (GetStats \<lparr>todos = [first_todo, second_todo, single_todo\<lparr>ID := 3\<rparr>], nextID = 4\<rparr>)) = 3
   \<and> CompletionRate exact_ops \<lparr>Total = 3, Completed = 1, Pending = 2\<rparr> = 100 / 3
   \<and> GetStats \<lparr>todos = [], nextID = 1\<rparr> = \<lparr>Total = 0, Completed = 0, Pending = 0\<rparr>
   \<and> CompletionRate exact_ops \<lparr>Total = 0, Completed = 0, Pending = 0\<rparr> = 0"
proof -
  let ?s = "\<lparr>todos = [first_todo, second_todo, single_todo\<lparr>ID := 3\<rparr>], nextID = 4\<rparr>"
  have l: "length (todos ?s) < 2 ^ 63" by simp
  have g: "GetStats ?s = \<lparr>Total = 3, Completed = 1, Pending = 2\<rparr>"
    by (simp add: GetStats_def first_todo_def second_todo_def single_todo_def)
  have g0: "GetStats \<lparr>todos = [], nextID = 1\<rparr> = \<lparr>Total = 0, Completed = 0, Pending = 0\<rparr>"
    by (simp add: GetStats_def)
  from GetStats_counts [of ?s exact_ops] l
  have n: "sint (Total (GetStats ?s)) = 3"
    by simp
  from GetStats_counts [of ?s exact_ops] g
  have r: "CompletionRate exact_ops \<lparr>Total = 3, Completed = 1, Pending = 2\<rparr> = 100 / 3"
    by (simp add: exact_ops_def)
  from GetStats_counts [of "\<lparr>todos = [], nextID = 1\<rparr>" exact_ops] g0
  have r0: "CompletionRate exact_ops \<lparr>Total = 0, Completed = 0, Pending = 0\<rparr> = 0"
    by (simp add: exact_ops_def)
  from l g n r g0 r0 show ?thesis by simp
qed

section \<open>Identifiers\<close>

text \<open>
  Adding one to a Go \<^verbatim>\<open>int\<close> below the largest one adds one to its value; at the
  largest one, \<open>2 ^ 63 - 1\<close>, the sum wraps around to \<open>- (2 ^ 63)\<close>.
\<close>

lemma sint_plus_one:
  assumes "sint (n :: goint) < 2 ^ 63 - 1"
  shows "sint (n + 1) = sint n + 1"
proof -
  have lo: "- (2 ^ 63) \<le> sint n"
    using sint_ge [of n] by simp
  have "sint (n + 1) = signed_take_bit 63 (sint n + 1)"
    using sint_word_add [of n 1] by simp
  also from assms lo have "\<dots> = sint n + 1"
    by (simp add: signed_take_bit_int_eq_self_iff)
  finally show ?thesis .
qed

lemma Add_invalid: "Add R now [] s w = (Inl ErrEmptyDescription, s, w)"
  by (simp add: Add_def)

lemma Adds_identifiers:
  assumes "sint (nextID s) + int (length calls) < 2 ^ 63"
    and "Adds R calls s w = (rs, s', w')"
  shows "sint (nextID s) \<le> sint (nextID s')
    \<and> (\<forall>t\<in>set (created rs). sint (nextID s) \<le> sint (ID t))
    \<and> sorted_wrt (<s) (map ID (created rs))"
  using assms
proof (induction calls arbitrary: s w rs s' w')
  case Nil
  then show ?case by simp
next
  case (Cons c calls)
  obtain now d where c: "c = (now, d)" by (cases c)
  obtain r s1 w1 where a: "Add R now d s w = (r, s1, w1)" by (cases "Add R now d s w")
  obtain rs1 s2 w2 where b: "Adds R calls s1 w1 = (rs1, s2, w2)" by (cases "Adds R calls s1 w1")
  from Cons.prems(2) c a b have rs: "rs = r # rs1" and s': "s' = s2" by simp_all
  show ?case
  proof (cases "d = []")
    case True
    with a have s1: "s1 = s" and r: "r = Inl ErrEmptyDescription" by (simp_all add: Add_invalid)
    from Cons.prems(1) have "sint (nextID s) + int (length calls) < 2 ^ 63" by simp
    from Cons.IH [OF this b [unfolded s1]] show ?thesis by (simp add: rs r s')
  next
    case False
    from Cons.prems(1) have small: "sint (nextID s) < 2 ^ 63 - 1" by simp
    from a False have n1: "nextID s1 = nextID s + 1"
      by (auto simp: Add_valid)
    then have sn1: "sint (nextID s1) = sint (nextID s) + 1"
      by (simp add: sint_plus_one [OF small])
    with Cons.prems(1) have "sint (nextID s1) + int (length calls) < 2 ^ 63" by simp
    from Cons.IH [OF this b]
    have ih: "sint (nextID s1) \<le> sint (nextID s2)"
      "\<forall>t\<in>set (created rs1). sint (nextID s1) \<le> sint (ID t)"
      "sorted_wrt (<s) (map ID (created rs1))"
      by simp_all
    show ?thesis
    proof (cases r)
      case (Inl e)
      with ih sn1 show ?thesis by (auto simp: rs s')
    next
      case (Inr t)
      with a have "ID t = nextID s" using Add_returns_new [of R now d s w t s1 w1] by simp
      with ih(2) sn1 have "\<forall>u\<in>set (created rs1). ID t <s ID u"
        by (fastforce simp: word_sless_alt)
      with ih sn1 Inr \<open>ID t = nextID s\<close> show ?thesis by (auto simp: rs s')
    qed
  qed
qed

lemma loadTodos_loop_bounds:
  assumes "\<forall>t\<in>set ts. sint (ID t) < 2 ^ 63 - 1"
  shows "sint n \<le> sint (loadTodos_loop n ts)
    \<and> (\<forall>t\<in>set ts. sint (ID t) < sint (loadTodos_loop n ts))
    \<and> (loadTodos_loop n ts = n \<or> (\<exists>t\<in>set ts. sint (loadTodos_loop n ts) = sint (ID t) + 1))"
  using assms
proof (induction ts arbitrary: n)
  case Nil
  then show ?case by simp
next
  case (Cons t ts)
  let ?n = "if n \<le>s ID t then ID t + 1 else n"
  from Cons.prems have small: "sint (ID t) < 2 ^ 63 - 1" and rest: "\<forall>t\<in>set ts. sint (ID t) < 2 ^ 63 - 1"
    by simp_all
  have step: "sint n \<le> sint ?n \<and> sint (ID t) < sint ?n \<and> (?n = n \<or> sint ?n = sint (ID t) + 1)"
    by (simp add: word_sle_eq sint_plus_one [OF small])
  from Cons.IH [OF rest, of ?n]
  have ih: "sint ?n \<le> sint (loadTodos_loop ?n ts)"
    "\<forall>t\<in>set ts. sint (ID t) < sint (loadTodos_loop ?n ts)"
    "loadTodos_loop ?n ts = ?n \<or> (\<exists>t\<in>set ts. sint (loadTodos_loop ?n ts) = sint (ID t) + 1)"
    by simp_all
  have eq: "loadTodos_loop n (t # ts) = loadTodos_loop ?n ts" by simp
  from step ih show ?case unfolding eq by (auto simp del: loadTodos_loop.simps)
qed

lemma loadTodos_loop_next:
  assumes "ts \<noteq> []" and "\<forall>t\<in>set ts. 0 <s ID t \<and> sint (ID t) < 2 ^ 63 - 1"
  shows "sint (loadTodos_loop 1 ts) = Max ((\<lambda>t. sint (ID t)) ` set ts) + 1"
proof -
  from assms(2) have b: "\<forall>t\<in>set ts. sint (ID t) < 2 ^ 63 - 1" by simp
  from assms(2) have pos: "\<forall>t\<in>set ts. 1 \<le> sint (ID t)" by (auto simp: word_sless_alt)
  note L = loadTodos_loop_bounds [OF b, of 1]
  from assms(1) obtain t0 where "t0 \<in> set ts" by (cases ts) auto
  with L pos have "loadTodos_loop 1 ts \<noteq> 1" by fastforce
  with L obtain t where t: "t \<in> set ts" "sint (loadTodos_loop 1 ts) = sint (ID t) + 1" by blast
  have "Max ((\<lambda>t. sint (ID t)) ` set ts) = sint (ID t)"
  proof (rule Max_eqI)
    show "finite ((\<lambda>t. sint (ID t)) ` set ts)" by simp
    show "sint (ID t) \<in> (\<lambda>t. sint (ID t)) ` set ts" using t(1) by simp
    fix y assume "y \<in> (\<lambda>t. sint (ID t)) ` set ts"
    then obtain u where "u \<in> set ts" "y = sint (ID u)" by auto
    with L t(2) show "y \<le> sint (ID t)" by fastforce
  qed
  with t(2) show ?thesis by simp
qed

lemma NewService_nothing_loaded:
  "Load R w = Inr [] \<or> Load R w = Inl e \<Longrightarrow> fst (NewService R w) = \<lparr>todos = [], nextID = 1\<rparr>"
  by (auto simp: NewService_def loadTodos_def)

lemma NewService_loaded:
  "Load R w = Inr ts \<Longrightarrow>
     fst (NewService R w) = \<lparr>todos = ts, nextID = loadTodos_loop 1 ts\<rparr>"
  by (simp add: NewService_def loadTodos_def)

text \<open>
  Claim C1, as stated: the identifiers assigned by successive successful \<open>Add\<close> calls
  are strictly increasing, and a service constructed over a loaded collection with
  positive identifiers continues one above the largest of them. Both fail at the end
  of the range of \<^verbatim>\<open>int\<close>. Over a store holding one todo with the positive identifier
  \<open>2 ^ 63 - 2\<close>, two successful \<open>Add\<close> calls assign \<open>2 ^ 63 - 1\<close> and then \<open>- (2 ^ 63)\<close>,
  which is smaller. Over a store holding the identifiers \<open>2 ^ 63 - 1\<close> and 2, the
  counter wraps at the first and is then set from the second: the next identifier is 3.
\<close>

theorem Add_identifiers_counterexample:
  "0 <s (9223372036854775806 :: goint)
   \<and> map ID (created (fst (Adds mockRepo [(1672578000, ''Buy milk''), (1672578060, ''Pay bills'')]
        (fst (NewService mockRepo \<lparr>m_todos = [first_todo\<lparr>ID := 9223372036854775806\<rparr>], m_err = None\<rparr>))
        \<lparr>m_todos = [first_todo\<lparr>ID := 9223372036854775806\<rparr>], m_err = None\<rparr>)))
       = [9223372036854775807, - 9223372036854775808]
   \<and> \<not> sorted_wrt (<s) (map ID (created (fst (Adds mockRepo
        [(1672578000, ''Buy milk''), (1672578060, ''Pay bills'')]
        (fst (NewService mockRepo \<lparr>m_todos = [first_todo\<lparr>ID := 9223372036854775806\<rparr>], m_err = None\<rparr>))
        \<lparr>m_todos = [first_todo\<lparr>ID := 9223372036854775806\<rparr>], m_err = None\<rparr>))))
   \<and> nextID (fst (NewService mockRepo
        \<lparr>m_todos = [first_todo\<lparr>ID := 9223372036854775807\<rparr>, second_todo], m_err = None\<rparr>)) = 3"
proof -
  let ?m = "\<lparr>m_todos = [first_todo\<lparr>ID := 9223372036854775806\<rparr>], m_err = None\<rparr>"
  have n: "fst (NewService mockRepo ?m) =
      \<lparr>todos = [first_todo\<lparr>ID := 9223372036854775806\<rparr>], nextID = 9223372036854775807\<rparr>"
    by (simp add: NewService_def loadTodos_def mockRepo_def MockRepository_Load_def first_todo_def
        word_sle_eq)
  have ids: "map ID (created (fst (Adds mockRepo [(1672578000, ''Buy milk''), (1672578060, ''Pay bills'')]
        (fst (NewService mockRepo ?m)) ?m))) = [9223372036854775807, - 9223372036854775808]"
    unfolding n
    by (simp add: Add_def Let_def save_def mockRepo_def MockRepository_Save_def)
  have ns: "\<not> sorted_wrt (<s) [9223372036854775807, - 9223372036854775808 :: goint]"
    by (simp add: word_sless_alt)
  have p: "0 <s (9223372036854775806 :: goint)"
    by (simp add: word_sless_alt)
  have n3: "nextID (fst (NewService mockRepo
        \<lparr>m_todos = [first_todo\<lparr>ID := 9223372036854775807\<rparr>, second_todo], m_err = None\<rparr>)) = 3"
    by (simp add: NewService_def loadTodos_def mockRepo_def MockRepository_Load_def first_todo_def
        second_todo_def word_sle_eq)
  from p ids ns n3 show ?thesis by (simp only: simp_thms)
qed

text \<open>
  Claim C1, amended. In every sequence of \<open>Add\<close> calls during which the counter stays
  in the range of \<^verbatim>\<open>int\<close> (its value plus the number of calls is below \<open>2 ^ 63\<close>), the
  identifiers assigned by the calls that succeed are strictly increasing. A service
  constructed over an empty store, or one whose load fails, starts with no todos and
  counter 1, and its first successful \<open>Add\<close> assigns identifier 1. A service
  constructed over a loaded, non-empty collection whose identifiers are positive and
  below \<open>2 ^ 63 - 1\<close> holds that collection, and its next identifier is one more than
  the maximum of the identifiers. A successful \<open>Add\<close> returns an item with the
  counter's value as identifier, the flag false and no completion timestamp, appends it
  and advances the counter; the item appended by any \<open>Add\<close> with a valid description
  has the flag false and no completion timestamp.
\<close>

theorem Add_identifiers:
  "(sint (nextID s) + int (length calls) < 2 ^ 63 \<longrightarrow>
      sorted_wrt (<s) (map ID (created (fst (Adds R calls s w)))))
   \<and> ((Load R w = Inr [] \<or> Load R w = Inl e) \<longrightarrow>
        fst (NewService R w) = \<lparr>todos = [], nextID = 1\<rparr>)
   \<and> ((Load R w = Inr [] \<or> Load R w = Inl e)
        \<and> Add R now description (fst (NewService R w)) w = (Inr t, s', w') \<longrightarrow> ID t = 1)
   \<and> (Load R w = Inr ts \<and> ts \<noteq> [] \<and> (\<forall>t\<in>set ts. 0 <s ID t \<and> sint (ID t) < 2 ^ 63 - 1) \<longrightarrow>
        todos (fst (NewService R w)) = ts
        \<and> sint (nextID (fst (NewService R w))) = Max ((\<lambda>t. sint (ID t)) ` set ts) + 1)
   \<and> (Add R now description s w = (Inr t, s', w') \<longrightarrow>
        ID t = nextID s \<and> \<not> Completed t \<and> CompletedAt t = None
        \<and> todos s' = todos s @ [t] \<and> nextID s' = nextID s + 1)
   \<and> (description \<noteq> [] \<longrightarrow>
        \<not> Completed (last (todos (fst (snd (Add R now description s w)))))
        \<and> CompletedAt (last (todos (fst (snd (Add R now description s w))))) = None)"
proof (intro conjI impI)
  assume b: "sint (nextID s) + int (length calls) < 2 ^ 63"
  obtain rs s2 w2 where a: "Adds R calls s w = (rs, s2, w2)" by (cases "Adds R calls s w")
  from Adds_identifiers [OF b a] a
  show "sorted_wrt (<s) (map ID (created (fst (Adds R calls s w))))" by simp
next
  assume "Load R w = Inr [] \<or> Load R w = Inl e"
  then show "fst (NewService R w) = \<lparr>todos = [], nextID = 1\<rparr>"
    by (rule NewService_nothing_loaded)
next
  assume h: "(Load R w = Inr [] \<or> Load R w = Inl e)
        \<and> Add R now description (fst (NewService R w)) w = (Inr t, s', w')"
  then have "Load R w = Inr [] \<or> Load R w = Inl e" by simp
  then have "fst (NewService R w) = \<lparr>todos = [], nextID = 1\<rparr>"
    by (rule NewService_nothing_loaded)
  with h have "Add R now description \<lparr>todos = [], nextID = 1\<rparr> w = (Inr t, s', w')" by simp
  from Add_returns_new [OF this] show "ID t = 1" by simp
next
  assume h: "Load R w = Inr ts \<and> ts \<noteq> [] \<and> (\<forall>t\<in>set ts. 0 <s ID t \<and> sint (ID t) < 2 ^ 63 - 1)"
  then have n: "fst (NewService R w) = \<lparr>todos = ts, nextID = loadTodos_loop 1 ts\<rparr>"
    by (intro NewService_loaded) simp
  then show "todos (fst (NewService R w)) = ts" by simp
  from h have "sint (loadTodos_loop 1 ts) = Max ((\<lambda>t. sint (ID t)) ` set ts) + 1"
    by (intro loadTodos_loop_next) simp_all
  with n show "sint (nextID (fst (NewService R w))) = Max ((\<lambda>t. sint (ID t)) ` set ts) + 1"
    by simp
next
  assume a: "Add R now description s w = (Inr t, s', w')"
  from Add_returns_new [OF a]
  show "ID t = nextID s" "\<not> Completed t" "CompletedAt t = None"
    "todos s' = todos s @ [t]" "nextID s' = nextID s + 1"
    by simp_all
next
  assume "description \<noteq> []"
  then show "\<not> Completed (last (todos (fst (snd (Add R now description s w)))))"
    and "CompletedAt (last (todos (fst (snd (Add R now description s w))))) = None"
    by (simp_all add: Add_valid)
qed

theorem Add_identifiers_witness:
  "map ID (created (fst (Adds mockRepo [(1672578000, ''Buy milk''), (1672578060, ''Pay bills'')]
      \<lparr>todos = [], nextID = 1\<rparr> empty_mock))) = [1, 2]
   \<and> sorted_wrt (<s) (map ID (created (fst (Adds mockRepo
        [(1672578000, ''Buy milk''), (1672578060, ''Pay bills'')] \<lparr>todos = [], nextID = 1\<rparr> empty_mock))))
   \<and> fst (NewService mockRepo empty_mock) = \<lparr>todos = [], nextID = 1\<rparr>
   \<and> Add mockRepo 1672578000 ''Buy milk'' (fst (NewService mockRepo empty_mock)) empty_mock =
       (Inr \<lparr>ID = 1, Description = ''Buy milk'', Completed = False, CreatedAt = 1672578000,
             CompletedAt = None\<rparr>,
        \<lparr>todos = [\<lparr>ID = 1, Description = ''Buy milk'', Completed = False, CreatedAt = 1672578000,
                    CompletedAt = None\<rparr>], nextID = 2\<rparr>,
        \<lparr>m_todos = [\<lparr>ID = 1, Description = ''Buy milk'', Completed = False, CreatedAt = 1672578000,
                    CompletedAt = None\<rparr>], m_err = None\<rparr>)
   \<and> todos (fst (NewService mockRepo \<lparr>m_todos = [first_todo, second_todo], m_err = None\<rparr>)) =
       [first_todo, second_todo]
   \<and> sint (nextID (fst (NewService mockRepo \<lparr>m_todos = [first_todo, second_todo], m_err = None\<rparr>))) = 3"
proof -
  let ?calls = "[(1672578000, ''Buy milk''), (1672578060, ''Pay bills'')]"
  let ?s0 = "\<lparr>todos = [], nextID = 1\<rparr>"
  let ?m2 = "\<lparr>m_todos = [first_todo, second_todo], m_err = None\<rparr>"
  let ?t = "\<lparr>ID = 1, Description = ''Buy milk'', Completed = False, CreatedAt = 1672578000,
             CompletedAt = None\<rparr>"
  have ids: "map ID (created (fst (Adds mockRepo ?calls ?s0 empty_mock))) = [1, 2]"
    by (simp add: Add_def Let_def save_def mockRepo_def MockRepository_Save_def empty_mock_def)
  have b: "sint (nextID ?s0) + int (length ?calls) < 2 ^ 63" by simp
  have l0: "Load mockRepo empty_mock = Inr [] \<or> Load mockRepo empty_mock = Inl e" for e
    by (simp add: mockRepo_def MockRepository_Load_def empty_mock_def)
  have l2: "Load mockRepo ?m2 = Inr [first_todo, second_todo]
      \<and> [first_todo, second_todo] \<noteq> []
      \<and> (\<forall>t\<in>set [first_todo, second_todo]. 0 <s ID t \<and> sint (ID t) < 2 ^ 63 - 1)"
    by (simp add: mockRepo_def MockRepository_Load_def first_todo_def second_todo_def word_sless_alt)
  note T = Add_identifiers [where R = mockRepo]
  from T [where s = ?s0 and calls = ?calls and w = empty_mock, THEN conjunct1] b
  have sorted: "sorted_wrt (<s) (map ID (created (fst (Adds mockRepo ?calls ?s0 empty_mock))))"
    by blast
  from T [where w = empty_mock, THEN conjunct2, THEN conjunct1] l0
  have n0: "fst (NewService mockRepo empty_mock) = ?s0"
    by blast
  have a: "Add mockRepo 1672578000 ''Buy milk'' (fst (NewService mockRepo empty_mock)) empty_mock =
      (Inr ?t, \<lparr>todos = [?t], nextID = 2\<rparr>, \<lparr>m_todos = [?t], m_err = None\<rparr>)"
    unfolding n0
    by (simp add: Add_def Let_def save_def mockRepo_def MockRepository_Save_def empty_mock_def)
  from T [where w = ?m2 and ts = "[first_todo, second_todo]",
      THEN conjunct2, THEN conjunct2, THEN conjunct2, THEN conjunct1] l2
  have n2: "todos (fst (NewService mockRepo ?m2)) = [first_todo, second_todo]
      \<and> sint (nextID (fst (NewService mockRepo ?m2))) =
          Max ((\<lambda>t. sint (ID t)) ` set [first_todo, second_todo]) + 1"
    by blast
  have "Max ((\<lambda>t. sint (ID t)) ` set [first_todo, second_todo]) = 2"
    by (simp add: first_todo_def second_todo_def)
  with n2 have n2': "sint (nextID (fst (NewService mockRepo ?m2))) = 3" by simp
  from ids sorted n0 a n2 n2' show ?thesis by blast
qed

end
